theory Spec2Isabelle
  imports Complex_Main "HOL-Library.Word"
begin

section \<open>Data model of the launcher (\<^verbatim>\<open>main.go\<close>)\<close>

text \<open>
  The repository holds two copies of the program: one that also serves a health
  endpoint (package variables \<^verbatim>\<open>port\<close> and \<^verbatim>\<open>healthStatus\<close>), and one that
  only runs the loop. The functions \<^verbatim>\<open>getInstanceTypes\<close>, \<^verbatim>\<open>checkInstanceAvailability\<close>
  and \<^verbatim>\<open>launchInstance\<close> have the same text in both; \<^verbatim>\<open>init\<close>,
  \<^verbatim>\<open>launchInstanceLoop\<close> and \<^verbatim>\<open>main\<close> differ. Definitions of the copy without
  the health endpoint carry the suffix \<open>_plain\<close>.

  Go's \<^verbatim>\<open>int\<close> is taken as 64 bits wide, a Go \<^verbatim>\<open>string\<close> as its bytes.
\<close>

type_synonym go_int = "64 word"

text \<open>
  A decoded JSON document, as \<^verbatim>\<open>encoding/json\<close> stores it in an
  \<^verbatim>\<open>interface{}\<close>; \<open>JNull\<close> is the nil interface value.
\<close>

datatype json =
    JNull
  | JBool bool
  | JNumber real
  | JString string
  | JArray "json list"
  | JObject "(string \<times> json) list"

record Region =
  Name :: string

record InstanceTypeData =
  RegionsWithCapacityAvailable :: "Region list"

record InstanceTypes =
  Data :: "string \<rightharpoonup> InstanceTypeData"

record LaunchPayload =
  RegionName :: string
  InstanceTypeName :: string
  SSHKeyNames :: "string list"
  Quantity :: go_int

record HealthStatus =
  Status :: string
  Result :: json
  Error :: string

text \<open>
  The package variables set by \<^verbatim>\<open>init\<close> and never written afterwards. The copy
  with the health endpoint has \<^verbatim>\<open>port\<close> in addition.
\<close>

record config =
  apiKey :: string
  instanceTypeName :: string
  sshKeyName :: string
  checkInterval :: go_int
  errorWait :: go_int

record config_health = config +
  port :: go_int

definition baseUrl :: string where
  "baseUrl = ''https://cloud.lambdalabs.com/api/v1/''"

section \<open>Start-up: \<^verbatim>\<open>init\<close>\<close>

subsection \<open>\<^verbatim>\<open>strconv.Atoi\<close>\<close>

text \<open>
  \<^verbatim>\<open>strconv.Atoi\<close> belongs to the Go standard library. It is written out here
  for base 10 and a 64-bit \<^verbatim>\<open>int\<close>, function by function: \<^verbatim>\<open>Atoi\<close> has a fast
  path for strings of 1 to 18 bytes and otherwise calls \<^verbatim>\<open>ParseInt(s, 10, 0)\<close>,
  which strips a sign and calls \<^verbatim>\<open>ParseUint\<close>. A syntax error comes with the
  value 0, a range error with the largest value of that sign.
\<close>

datatype num_error = ErrSyntax | ErrRange

text \<open>The loop of \<^verbatim>\<open>ParseUint\<close>; \<open>n\<close> is the \<^verbatim>\<open>uint64\<close> accumulator.\<close>

fun ParseUint_loop :: "string \<Rightarrow> 64 word \<Rightarrow> 64 word \<times> num_error option" where
  "ParseUint_loop [] n = (n, None)"
| "ParseUint_loop (c # cs) n =
     (let b = (of_char c :: nat) in
      if \<not> (48 \<le> b \<and> b \<le> 57) then (0, Some ErrSyntax)
      else if n \<ge> 1844674407370955162 then (18446744073709551615, Some ErrRange)
      else
        (let m = n * 10; n1 = m + of_nat (b - 48) in
         if n1 < m then (18446744073709551615, Some ErrRange)
         else ParseUint_loop cs n1))"

definition ParseUint :: "string \<Rightarrow> 64 word \<times> num_error option" where
  "ParseUint s = (if s = [] then (0, Some ErrSyntax) else ParseUint_loop s 0)"

definition ParseInt :: "string \<Rightarrow> go_int \<times> num_error option" where
  "ParseInt s =
     (case s of
        [] \<Rightarrow> (0, Some ErrSyntax)
      | c # cs \<Rightarrow>
          (let neg = (c = CHR ''-'');
               s1 = (if c = CHR ''+'' \<or> c = CHR ''-'' then cs else s);
               (un, err) = ParseUint s1
           in if err = Some ErrSyntax then (0, err)
              else if \<not> neg \<and> un \<ge> 9223372036854775808
                then (9223372036854775807, Some ErrRange)
              else if neg \<and> un > 9223372036854775808
                then (- 9223372036854775808, Some ErrRange)
              else (if neg then - un else un, None)))"

text \<open>The loop of the fast path; \<open>None\<close> is its \<^verbatim>\<open>return 0, syntaxError\<close>.\<close>

fun Atoi_loop :: "string \<Rightarrow> go_int \<Rightarrow> go_int option" where
  "Atoi_loop [] n = Some n"
| "Atoi_loop (c # cs) n =
     (let ch = (of_char c :: 8 word) - 48 in
      if ch > 9 then None else Atoi_loop cs (n * 10 + ucast ch))"

definition Atoi :: "string \<Rightarrow> go_int \<times> num_error option" where
  "Atoi s =
     (if 0 < length s \<and> length s < 19 then
        (let s1 = (if hd s = CHR ''-'' \<or> hd s = CHR ''+'' then tl s else s) in
         if s1 = [] then (0, Some ErrSyntax)
         else
           (case Atoi_loop s1 0 of
              None \<Rightarrow> (0, Some ErrSyntax)
            | Some n \<Rightarrow> (if hd s = CHR ''-'' then - n else n, None)))
      else ParseInt s)"

subsection \<open>The environment and \<^verbatim>\<open>init\<close>\<close>

text \<open>
  The process environment, after \<^verbatim>\<open>godotenv.Load\<close> has added the entries of a
  \<^verbatim>\<open>.env\<close> file, is a map from names to values; \<^verbatim>\<open>os.Getenv\<close> gives the empty
  string for a name that is not set.
\<close>

type_synonym environ = "string \<rightharpoonup> string"

definition Getenv :: "environ \<Rightarrow> string \<Rightarrow> string" where
  "Getenv env k = (case env k of None \<Rightarrow> [] | Some v \<Rightarrow> v)"

text \<open>
  \<^verbatim>\<open>x, _ = strconv.Atoi(os.Getenv(k)); if x == 0 { x = d }\<close>: the error is
  dropped, only the value is looked at.
\<close>

definition atoi_or :: "environ \<Rightarrow> string \<Rightarrow> go_int \<Rightarrow> go_int" where
  "atoi_or env k d = (let x = fst (Atoi (Getenv env k)) in if x = 0 then d else x)"

definition init :: "environ \<Rightarrow> config_health" where
  "init env =
     \<lparr> apiKey = Getenv env ''LAMBDA_API_KEY'',
       instanceTypeName =
         (let t = Getenv env ''INSTANCE_TYPE_NAME'' in if t = [] then ''gpu_1x_a6000'' else t),
       sshKeyName = Getenv env ''SSH_KEY_NAME'',
       checkInterval = atoi_or env ''CHECK_INTERVAL_SECONDS'' 30,
       errorWait = atoi_or env ''ERROR_WAIT_SECONDS'' 10,
       port = atoi_or env ''PORT'' 5000 \<rparr>"

definition init_plain :: "environ \<Rightarrow> config" where
  "init_plain env =
     \<lparr> apiKey = Getenv env ''LAMBDA_API_KEY'',
       instanceTypeName =
         (let t = Getenv env ''INSTANCE_TYPE_NAME'' in if t = [] then ''gpu_1x_a6000'' else t),
       sshKeyName = Getenv env ''SSH_KEY_NAME'',
       checkInterval = atoi_or env ''CHECK_INTERVAL_SECONDS'' 30,
       errorWait = atoi_or env ''ERROR_WAIT_SECONDS'' 10 \<rparr>"

section \<open>Talking to the provider\<close>

text \<open>
  An error value is known by its message (\<^verbatim>\<open>err.Error()\<close>).
\<close>

datatype error = Err string

fun Error_of :: "error \<Rightarrow> string" where
  "Error_of (Err m) = m"

text \<open>
  An \<^verbatim>\<open>http.Request\<close>, as far as the program sets it. The body is the JSON
  document that the bytes passed to \<^verbatim>\<open>http.NewRequest\<close> spell.
\<close>

record request =
  Method :: string
  URL :: string
  BasicAuth :: "(string \<times> string) option"
  Header :: "(string \<times> string) list"
  Body :: "json option"

text \<open>
  \<^verbatim>\<open>http.NewRequest\<close> fails on a malformed method or URL only; both are
  constants of the program and well formed, so the error it returns is nil.
\<close>

definition NewRequest :: "string \<Rightarrow> string \<Rightarrow> json option \<Rightarrow> request \<times> error option" where
  "NewRequest m u b =
     (\<lparr> Method = m, URL = u, BasicAuth = None, Header = [], Body = b \<rparr>, None)"

definition SetBasicAuth :: "string \<Rightarrow> string \<Rightarrow> request \<Rightarrow> request" where
  "SetBasicAuth user pw r = r\<lparr> BasicAuth := Some (user, pw) \<rparr>"

definition Header_Set :: "string \<Rightarrow> string \<Rightarrow> request \<Rightarrow> request" where
  "Header_Set k v r = r\<lparr> Header := (k, v) # filter (\<lambda>kv. fst kv \<noteq> k) (Header r) \<rparr>"

text \<open>
  The encoder of \<^verbatim>\<open>encoding/json\<close> reads a string rune by rune with
  \<^verbatim>\<open>utf8.DecodeRuneInString\<close> and writes U+FFFD for every byte at which no valid
  UTF-8 encoding starts. \<open>rune_size\<close> is the length of the valid encoding at the
  head of a string, following the table of first bytes and the accept ranges of
  \<^verbatim>\<open>unicode/utf8\<close> (no overlong forms, no surrogates, nothing above U+10FFFF); it
  is 0 where Go reports \<^verbatim>\<open>RuneError\<close> with size 1. \<open>ValidString\<close> is
  \<^verbatim>\<open>utf8.ValidString\<close>.
\<close>

definition between :: "nat \<Rightarrow> nat \<Rightarrow> char \<Rightarrow> bool" where
  "between lo hi c = (lo \<le> of_char c \<and> (of_char c :: nat) \<le> hi)"

fun rune_size :: "string \<Rightarrow> nat" where
  "rune_size [] = 0"
| "rune_size (c # cs) =
     (let b = (of_char c :: nat) in
      if b < 128 then 1
      else if 194 \<le> b \<and> b \<le> 223 then
        (case cs of
           c1 # _ \<Rightarrow> if between 128 191 c1 then 2 else 0
         | _ \<Rightarrow> 0)
      else if 224 \<le> b \<and> b \<le> 239 then
        (case cs of
           c1 # c2 # _ \<Rightarrow>
             if between (if b = 224 then 160 else 128) (if b = 237 then 159 else 191) c1
                \<and> between 128 191 c2
             then 3 else 0
         | _ \<Rightarrow> 0)
      else if 240 \<le> b \<and> b \<le> 244 then
        (case cs of
           c1 # c2 # c3 # _ \<Rightarrow>
             if between (if b = 240 then 144 else 128) (if b = 244 then 143 else 191) c1
                \<and> between 128 191 c2 \<and> between 128 191 c3
             then 4 else 0
         | _ \<Rightarrow> 0)
      else 0)"

fun coerce_utf8 :: "string \<Rightarrow> string" where
  "coerce_utf8 [] = []"
| "coerce_utf8 (c # cs) =
     (if rune_size (c # cs) = 0
      then [CHR 0xEF, CHR 0xBF, CHR 0xBD] @ coerce_utf8 cs
      else take (rune_size (c # cs)) (c # cs)
             @ coerce_utf8 (drop (rune_size (c # cs)) (c # cs)))"

fun ValidString :: "string \<Rightarrow> bool" where
  "ValidString [] = True"
| "ValidString (c # cs) =
     (if rune_size (c # cs) = 0 then False
      else ValidString (drop (rune_size (c # cs)) (c # cs)))"

text \<open>
  The document that the bytes written for a value spell: every string in it, the
  names of members included, with its invalid bytes replaced. (The members of an
  object are a Go map; their order in the list carries no meaning.)
\<close>

primrec encode_value :: "json \<Rightarrow> json" where
  "encode_value JNull = JNull"
| "encode_value (JBool b) = JBool b"
| "encode_value (JNumber x) = JNumber x"
| "encode_value (JString s) = JString (coerce_utf8 s)"
| "encode_value (JArray xs) = JArray (map encode_value xs)"
| "encode_value (JObject kvs) = JObject (map (map_prod coerce_utf8 encode_value) kvs)"

text \<open>
  \<^verbatim>\<open>json.Marshal\<close> of a \<^verbatim>\<open>LaunchPayload\<close>: an object with the fields in the
  order of the struct, named by their tags, each string as the encoder writes it.
  It has no error for a struct of strings and an integer.
\<close>

definition Marshal :: "LaunchPayload \<Rightarrow> json \<times> error option" where
  "Marshal p =
     (JObject
        [ (''region_name'', JString (coerce_utf8 (RegionName p))),
          (''instance_type_name'', JString (coerce_utf8 (InstanceTypeName p))),
          (''ssh_key_names'', JArray (map (\<lambda>k. JString (coerce_utf8 k)) (SSHKeyNames p))),
          (''quantity'', JNumber (real_of_int (sint (Quantity p)))) ],
      None)"

text \<open>
  What \<^verbatim>\<open>client.Do\<close> followed by \<^verbatim>\<open>json.NewDecoder(resp.Body).Decode\<close> gives:
  the request fails, or the body does not decode into the target, or it decodes to
  a value. The HTTP status of the response is never looked at.
\<close>

datatype 'a reply = DoFailed error | DecodeFailed error | Decoded 'a

text \<open>
  The provider and the network are a state machine of their own: its state \<open>'w\<close> is
  unknown to the program, and each request moves it and yields a reply. One answer
  is decoded into \<^verbatim>\<open>InstanceTypes\<close>, the other into an \<^verbatim>\<open>interface{}\<close>.
\<close>

record 'w provider =
  serve_instance_types :: "request \<Rightarrow> 'w \<Rightarrow> InstanceTypes reply \<times> 'w"
  serve_launch :: "request \<Rightarrow> 'w \<Rightarrow> json reply \<times> 'w"

text \<open>
  What the program does to the outside, in order: the lines it logs (format and
  arguments), the two kinds of exchange with the provider, and its sleeps, each
  with the \<^verbatim>\<open>time.Duration\<close> passed (an \<^verbatim>\<open>int64\<close> of nanoseconds).
\<close>

datatype logline =
    LogSeparator
  | LogChecking string
  | LogFetchError error go_int
  | LogCheckError error go_int
  | LogLaunchError error go_int
  | LogLaunchResult json
  | LogNoRegions string go_int

datatype event =
    Log logline
  | Fetch request "InstanceTypes reply"
  | Launch request "json reply"
  | Sleep "64 word"

record 'w state =
  world :: 'w
  trace :: "event list"

record 'w state_health = "'w state" +
  healthStatus :: HealthStatus

definition emit :: "event \<Rightarrow> ('w, 'z) state_scheme \<Rightarrow> ('w, 'z) state_scheme" where
  "emit e s = s\<lparr> trace := trace s @ [e] \<rparr>"

definition Second :: "64 word" where
  "Second = 1000000000"

definition empty_InstanceTypes :: InstanceTypes where
  "empty_InstanceTypes = \<lparr> Data = Map.empty \<rparr>"

definition getInstanceTypes ::
  "'c config_scheme \<Rightarrow> 'w provider \<Rightarrow> ('w, 'z) state_scheme
     \<Rightarrow> (InstanceTypes \<times> error option) \<times> ('w, 'z) state_scheme" where
  "getInstanceTypes cfg net s0 =
     (let s1 = emit (Log (LogChecking (instanceTypeName cfg))) s0;
          (req, err) = NewRequest ''GET'' (baseUrl @ ''instance-types'') None
      in case err of
           Some e \<Rightarrow> ((empty_InstanceTypes, Some e), s1)
         | None \<Rightarrow>
             (let req1 = SetBasicAuth (apiKey cfg) [] req;
                  (rep, w) = serve_instance_types net req1 (world s1);
                  s2 = emit (Fetch req1 rep) (s1\<lparr> world := w \<rparr>)
              in case rep of
                   DoFailed e \<Rightarrow> ((empty_InstanceTypes, Some e), s2)
                 | DecodeFailed e \<Rightarrow> ((empty_InstanceTypes, Some e), s2)
                 | Decoded instanceTypes \<Rightarrow> ((instanceTypes, None), s2)))"

definition checkInstanceAvailability ::
  "'c config_scheme \<Rightarrow> InstanceTypes \<Rightarrow> string \<times> error option" where
  "checkInstanceAvailability cfg instanceTypes =
     (case Data instanceTypes (instanceTypeName cfg) of
        Some d \<Rightarrow>
          (case RegionsWithCapacityAvailable d of
             r # rs \<Rightarrow> (Name r, None)
           | [] \<Rightarrow> ([], None))
      | None \<Rightarrow> ([], None))"

definition launchInstance ::
  "'c config_scheme \<Rightarrow> 'w provider \<Rightarrow> string \<Rightarrow> ('w, 'z) state_scheme
     \<Rightarrow> (json \<times> error option) \<times> ('w, 'z) state_scheme" where
  "launchInstance cfg net regionName s0 =
     (let payload = \<lparr> RegionName = regionName,
                       InstanceTypeName = instanceTypeName cfg,
                       SSHKeyNames = [sshKeyName cfg],
                       Quantity = 1 \<rparr>;
          (jsonPayload, err) = Marshal payload
      in case err of
           Some e \<Rightarrow> ((JNull, Some e), s0)
         | None \<Rightarrow>
             (let (req, err) =
                    NewRequest ''POST'' (baseUrl @ ''instance-operations/launch'') (Some jsonPayload)
              in case err of
                   Some e \<Rightarrow> ((JNull, Some e), s0)
                 | None \<Rightarrow>
                     (let req1 = SetBasicAuth (apiKey cfg) [] req;
                          req2 = Header_Set ''Content-Type'' ''application/json'' req1;
                          (rep, w) = serve_launch net req2 (world s0);
                          s1 = emit (Launch req2 rep) (s0\<lparr> world := w \<rparr>)
                      in case rep of
                           DoFailed e \<Rightarrow> ((JNull, Some e), s1)
                         | DecodeFailed e \<Rightarrow> ((JNull, Some e), s1)
                         | Decoded result \<Rightarrow> ((result, None), s1))))"

section \<open>The control loop\<close>

text \<open>How one pass through the body of the \<^verbatim>\<open>for\<close> ends.\<close>

datatype control = Continue | Break

text \<open>
  The three error branches of the loop with the health endpoint do the same four
  things: log, set \<^verbatim>\<open>healthStatus\<close>, sleep \<^verbatim>\<open>errorWait\<close> seconds, \<^verbatim>\<open>continue\<close>.
\<close>

definition launchInstanceLoop_body ::
  "'c config_scheme \<Rightarrow> 'w provider \<Rightarrow> 'w state_health \<Rightarrow> control \<times> 'w state_health" where
  "launchInstanceLoop_body cfg net s0 =
     (let s1 = emit (Log LogSeparator) s0;
          ((instanceTypes, err), s2) = getInstanceTypes cfg net s1
      in case err of
           Some e \<Rightarrow>
             (let s3 = emit (Log (LogFetchError e (errorWait cfg))) s2;
                  s4 = s3\<lparr> healthStatus :=
                          \<lparr> Status = ''error'', Result = JNull, Error = Error_of e \<rparr> \<rparr>;
                  s5 = emit (Sleep (errorWait cfg * Second)) s4
              in (Continue, s5))
         | None \<Rightarrow>
             (let (regionName, err) = checkInstanceAvailability cfg instanceTypes
              in case err of
                   Some e \<Rightarrow>
                     (let s3 = emit (Log (LogCheckError e (errorWait cfg))) s2;
                          s4 = s3\<lparr> healthStatus :=
                                  \<lparr> Status = ''error'', Result = JNull, Error = Error_of e \<rparr> \<rparr>;
                          s5 = emit (Sleep (errorWait cfg * Second)) s4
                      in (Continue, s5))
                 | None \<Rightarrow>
                     if regionName \<noteq> [] then
                       (let ((result, err), s3) = launchInstance cfg net regionName s2
                        in case err of
                             Some e \<Rightarrow>
                               (let s4 = emit (Log (LogLaunchError e (errorWait cfg))) s3;
                                    s5 = s4\<lparr> healthStatus :=
                                            \<lparr> Status = ''error'', Result = JNull,
                                              Error = Error_of e \<rparr> \<rparr>;
                                    s6 = emit (Sleep (errorWait cfg * Second)) s5
                                in (Continue, s6))
                           | None \<Rightarrow>
                               (let s4 = emit (Log (LogLaunchResult result)) s3;
                                    s5 = s4\<lparr> healthStatus :=
                                            \<lparr> Status = ''instance launched'', Result = result,
                                              Error = [] \<rparr> \<rparr>
                                in (Break, s5)))
                     else
                       (let s3 = emit (Log (LogNoRegions (instanceTypeName cfg)
                                              (checkInterval cfg))) s2;
                            s4 = emit (Sleep (checkInterval cfg * Second)) s3
                        in (Continue, s4))))"

text \<open>
  The \<^verbatim>\<open>for\<close> itself has no exit but the \<^verbatim>\<open>break\<close>, so it may run forever. The
  first argument bounds the number of passes: the result is \<open>Break\<close> with the state
  at the \<^verbatim>\<open>break\<close>, or \<open>Continue\<close> with the state after that many passes, the loop
  still running.
\<close>

fun launchInstanceLoop ::
  "nat \<Rightarrow> 'c config_scheme \<Rightarrow> 'w provider \<Rightarrow> 'w state_health \<Rightarrow> control \<times> 'w state_health" where
  "launchInstanceLoop 0 cfg net s = (Continue, s)"
| "launchInstanceLoop (Suc n) cfg net s =
     (case launchInstanceLoop_body cfg net s of
        (Break, s') \<Rightarrow> (Break, s')
      | (Continue, s') \<Rightarrow> launchInstanceLoop n cfg net s')"

text \<open>
  \<^verbatim>\<open>main\<close> sets the status to running and starts the loop once, on a goroutine of
  its own. \<^verbatim>\<open>healthHandler\<close> encodes the status as it stands when a request comes:
  \<^verbatim>\<open>result\<close> and \<^verbatim>\<open>error\<close> are left out when empty, and every string is
  written as the encoder writes it.
\<close>

definition initial :: "'w \<Rightarrow> 'w state_health" where
  "initial w =
     \<lparr> world = w, trace = [],
       healthStatus = \<lparr> Status = ''running'', Result = JNull, Error = [] \<rparr> \<rparr>"

definition main :: "nat \<Rightarrow> 'c config_scheme \<Rightarrow> 'w provider \<Rightarrow> 'w \<Rightarrow> control \<times> 'w state_health" where
  "main n cfg net w = launchInstanceLoop n cfg net (initial w)"

definition healthHandler :: "HealthStatus \<Rightarrow> json" where
  "healthHandler h =
     JObject
       ([(''status'', JString (coerce_utf8 (Status h)))]
        @ (if Result h = JNull then [] else [(''result'', encode_value (Result h))])
        @ (if Error h = [] then [] else [(''error'', JString (coerce_utf8 (Error h)))]))"

subsection \<open>The copy without the health endpoint\<close>

text \<open>
  Its loop is the same text without the writes to \<^verbatim>\<open>healthStatus\<close>, and its
  \<^verbatim>\<open>main\<close> calls the loop directly.
\<close>

definition launchInstanceLoop_body_plain ::
  "'c config_scheme \<Rightarrow> 'w provider \<Rightarrow> 'w state \<Rightarrow> control \<times> 'w state" where
  "launchInstanceLoop_body_plain cfg net s0 =
     (let s1 = emit (Log LogSeparator) s0;
          ((instanceTypes, err), s2) = getInstanceTypes cfg net s1
      in case err of
           Some e \<Rightarrow>
             (let s3 = emit (Log (LogFetchError e (errorWait cfg))) s2;
                  s4 = emit (Sleep (errorWait cfg * Second)) s3
              in (Continue, s4))
         | None \<Rightarrow>
             (let (regionName, err) = checkInstanceAvailability cfg instanceTypes
              in case err of
                   Some e \<Rightarrow>
                     (let s3 = emit (Log (LogCheckError e (errorWait cfg))) s2;
                          s4 = emit (Sleep (errorWait cfg * Second)) s3
                      in (Continue, s4))
                 | None \<Rightarrow>
                     if regionName \<noteq> [] then
                       (let ((result, err), s3) = launchInstance cfg net regionName s2
                        in case err of
                             Some e \<Rightarrow>
                               (let s4 = emit (Log (LogLaunchError e (errorWait cfg))) s3;
                                    s5 = emit (Sleep (errorWait cfg * Second)) s4
                                in (Continue, s5))
                           | None \<Rightarrow>
                               (let s4 = emit (Log (LogLaunchResult result)) s3
                                in (Break, s4)))
                     else
                       (let s3 = emit (Log (LogNoRegions (instanceTypeName cfg)
                                              (checkInterval cfg))) s2;
                            s4 = emit (Sleep (checkInterval cfg * Second)) s3
                        in (Continue, s4))))"

fun launchInstanceLoop_plain ::
  "nat \<Rightarrow> 'c config_scheme \<Rightarrow> 'w provider \<Rightarrow> 'w state \<Rightarrow> control \<times> 'w state" where
  "launchInstanceLoop_plain 0 cfg net s = (Continue, s)"
| "launchInstanceLoop_plain (Suc n) cfg net s =
     (case launchInstanceLoop_body_plain cfg net s of
        (Break, s') \<Rightarrow> (Break, s')
      | (Continue, s') \<Rightarrow> launchInstanceLoop_plain n cfg net s')"

definition main_plain :: "nat \<Rightarrow> 'c config_scheme \<Rightarrow> 'w provider \<Rightarrow> 'w \<Rightarrow> control \<times> 'w state" where
  "main_plain n cfg net w = launchInstanceLoop_plain n cfg net \<lparr> world = w, trace = [] \<rparr>"

section \<open>Vocabulary of the properties\<close>

text \<open>The two requests the program sends, written out.\<close>

definition fetchRequest :: "'c config_scheme \<Rightarrow> request" where
  "fetchRequest cfg =
     \<lparr> Method = ''GET'', URL = ''https://cloud.lambdalabs.com/api/v1/instance-types'',
       BasicAuth = Some (apiKey cfg, []), Header = [], Body = None \<rparr>"

definition launchRequest :: "'c config_scheme \<Rightarrow> string \<Rightarrow> request" where
  "launchRequest cfg regionName =
     \<lparr> Method = ''POST'',
       URL = ''https://cloud.lambdalabs.com/api/v1/instance-operations/launch'',
       BasicAuth = Some (apiKey cfg, []),
       Header = [(''Content-Type'', ''application/json'')],
       Body = Some (JObject
         [ (''region_name'', JString (coerce_utf8 regionName)),
           (''instance_type_name'', JString (coerce_utf8 (instanceTypeName cfg))),
           (''ssh_key_names'', JArray [JString (coerce_utf8 (sshKeyName cfg))]),
           (''quantity'', JNumber 1) ]) \<rparr>"

text \<open>
  Decimal numerals, to say what \<^verbatim>\<open>Atoi\<close> computes: the digits, the number a
  string of digits denotes, a string without its leading sign, and the strings of
  the form sign (optional), digits (one or more).
\<close>

definition is_digit :: "char \<Rightarrow> bool" where
  "is_digit c = (48 \<le> (of_char c :: nat) \<and> (of_char c :: nat) \<le> 57)"

fun decimal_from :: "nat \<Rightarrow> string \<Rightarrow> nat" where
  "decimal_from n [] = n"
| "decimal_from n (c # cs) = decimal_from (n * 10 + (of_char c - 48)) cs"

definition decimal :: "string \<Rightarrow> nat" where
  "decimal ds = decimal_from 0 ds"

definition strip_sign :: "string \<Rightarrow> string" where
  "strip_sign s =
     (case s of [] \<Rightarrow> [] | c # cs \<Rightarrow> if c = CHR ''+'' \<or> c = CHR ''-'' then cs else s)"

definition is_numeral :: "string \<Rightarrow> bool" where
  "is_numeral s = (strip_sign s \<noteq> [] \<and> list_all is_digit (strip_sign s))"

definition has_minus :: "string \<Rightarrow> bool" where
  "has_minus s = (case s of [] \<Rightarrow> False | c # cs \<Rightarrow> c = CHR ''-'')"

text \<open>The three integer settings of the copy with the health endpoint.\<close>

definition settings :: "(string \<times> (config_health \<Rightarrow> go_int) \<times> go_int) list" where
  "settings =
     [ (''CHECK_INTERVAL_SECONDS'', checkInterval, 30),
       (''ERROR_WAIT_SECONDS'', errorWait, 10),
       (''PORT'', port, 5000) ]"

text \<open>The value and error a function returns for a reply.\<close>

fun returned :: "'a \<Rightarrow> 'a reply \<Rightarrow> 'a \<times> error option" where
  "returned z (DoFailed e) = (z, Some e)"
| "returned z (DecodeFailed e) = (z, Some e)"
| "returned z (Decoded v) = (v, None)"

fun failure :: "'a reply \<Rightarrow> error option" where
  "failure (DoFailed e) = Some e"
| "failure (DecodeFailed e) = Some e"
| "failure (Decoded v) = None"

text \<open>Events that are calls to the provider, and the launch that succeeded.\<close>

fun is_call :: "event \<Rightarrow> bool" where
  "is_call (Fetch rq rep) = True"
| "is_call (Launch rq rep) = True"
| "is_call e = False"

fun is_launch :: "event \<Rightarrow> bool" where
  "is_launch (Launch rq rep) = True"
| "is_launch e = False"

fun launched :: "event \<Rightarrow> bool" where
  "launched (Launch rq (Decoded r)) = True"
| "launched e = False"

fun is_check_error :: "event \<Rightarrow> bool" where
  "is_check_error (Log (LogCheckError e k)) = True"
| "is_check_error e = False"

definition health_error :: "error \<Rightarrow> HealthStatus" where
  "health_error e = \<lparr> Status = ''error'', Result = JNull, Error = Error_of e \<rparr>"

definition health_launched :: "json \<Rightarrow> HealthStatus" where
  "health_launched r = \<lparr> Status = ''instance launched'', Result = r, Error = [] \<rparr>"

section \<open>Example inputs\<close>

text \<open>
  A provider that answers from a script: the replies to the availability requests
  and the replies to the launch requests, each used up in order; with its script
  used up it cannot be reached.
\<close>

type_synonym script = "InstanceTypes reply list \<times> json reply list"

definition scripted :: "script provider" where
  "scripted =
     \<lparr> serve_instance_types = (\<lambda>rq (fs, ls).
         case fs of [] \<Rightarrow> (DoFailed (Err ''unreachable''), (fs, ls))
                  | f # fs' \<Rightarrow> (f, (fs', ls))),
       serve_launch = (\<lambda>rq (fs, ls).
         case ls of [] \<Rightarrow> (DoFailed (Err ''unreachable''), (fs, ls))
                  | l # ls' \<Rightarrow> (l, (fs, ls'))) \<rparr>"

definition catalog :: "string \<Rightarrow> string list \<Rightarrow> InstanceTypes" where
  "catalog t names =
     \<lparr> Data = [t \<mapsto> \<lparr> RegionsWithCapacityAvailable = map (\<lambda>n. \<lparr> Name = n \<rparr>) names \<rparr>] \<rparr>"

text \<open>
  Capacity is seen three times and the launch succeeds at the third attempt; the
  second availability request fails.
\<close>

definition example_world :: script where
  "example_world =
     ([ Decoded (catalog ''gpu_1x_a6000'' [''us-east-1'', ''us-west-2'']),
        DoFailed (Err ''connection refused''),
        Decoded (catalog ''gpu_1x_a6000'' [''us-west-2'']),
        Decoded (catalog ''gpu_1x_a6000'' [''us-east-1'']) ],
      [ DoFailed (Err ''connection reset''),
        DecodeFailed (Err ''unexpected EOF''),
        Decoded (JObject [(''id'', JString ''abc123'')]) ])"

text \<open>The first availability request fails, then capacity is there and the launch succeeds.\<close>

definition flaky_world :: script where
  "flaky_world =
     ([ DoFailed (Err ''connection refused''),
        Decoded (catalog ''gpu_1x_a6000'' [''us-east-1'', ''us-west-2'']) ],
      [ Decoded (JObject [(''id'', JString ''abc123'')]) ])"

text \<open>An SSH key name whose second byte starts no UTF-8 encoding.\<close>

definition byte_env :: environ where
  "byte_env =
     [''LAMBDA_API_KEY'' \<mapsto> ''secret'', ''SSH_KEY_NAME'' \<mapsto> [CHR ''k'', CHR 0xFF]]"

definition example_env :: environ where
  "example_env = [''LAMBDA_API_KEY'' \<mapsto> ''secret'', ''SSH_KEY_NAME'' \<mapsto> ''laptop'']"

definition example_cfg :: config_health where
  "example_cfg =
     \<lparr> apiKey = ''secret'', instanceTypeName = ''gpu_1x_a6000'', sshKeyName = ''laptop'',
       checkInterval = 30, errorWait = 10, port = 5000 \<rparr>"

section \<open>What \<^verbatim>\<open>Atoi\<close> computes\<close>

text \<open>
  A string of digits is read without overflow as long as its number fits the
  accumulator; the first character that is not a digit is a syntax error, unless
  the digits before it have already overflowed.
\<close>

lemma decimal_from_ge: "n \<le> decimal_from n ds"
proof (induction ds arbitrary: n)
  case Nil
  then show ?case by simp
next
  case (Cons c cs)
  have "n \<le> n * 10 + (of_char c - 48)" by simp
  also have "\<dots> \<le> decimal_from (n * 10 + (of_char c - 48)) cs" by (rule Cons.IH)
  finally show ?case by simp
qed

lemma unat_of_char: "unat (of_char c :: 8 word) = (of_char c :: nat)"
proof -
  have "(of_char c :: 8 word) = of_nat (of_char c)"
    by (simp add: of_nat_of_char)
  then have "unat (of_char c :: 8 word) = (of_char c :: nat) mod 256"
    by (simp add: unat_of_nat)
  then show ?thesis by simp
qed

lemma byte_minus_48:
  "unat ((of_char c :: 8 word) - 48) =
     (if 48 \<le> (of_char c :: nat) then of_char c - 48 else of_char c + 208)"
  by (simp add: unat_sub_if_size unat_of_char word_size word_le_nat_alt)

lemma byte_digit_iff: "((of_char c :: 8 word) - 48 > 9) = (\<not> is_digit c)"
  by (auto simp: word_less_nat_alt byte_minus_48 is_digit_def)

lemma byte_digit_val:
  "is_digit c \<Longrightarrow> (ucast ((of_char c :: 8 word) - 48) :: 64 word) = of_nat (of_char c - 48)"
proof -
  assume "is_digit c"
  then have "unat ((of_char c :: 8 word) - 48) = of_char c - 48"
    by (simp add: byte_minus_48 is_digit_def)
  then show ?thesis by (metis of_nat_unat)
qed

lemma Atoi_loop_digits:
  "list_all is_digit ds \<Longrightarrow> Atoi_loop ds (of_nat m) = Some (of_nat (decimal_from m ds))"
proof (induction ds arbitrary: m)
  case Nil
  then show ?case by simp
next
  case (Cons c cs)
  then have d: "is_digit c" and r: "list_all is_digit cs" by simp_all
  have "(of_nat m :: 64 word) * 10 + ucast ((of_char c :: 8 word) - 48)
          = of_nat (m * 10 + (of_char c - 48))"
    by (simp add: byte_digit_val [OF d])
  with Cons.IH [OF r, of "m * 10 + (of_char c - 48)"] d show ?case
    by (simp add: byte_digit_iff Let_def)
qed

lemma Atoi_loop_bad:
  "list_all is_digit ds \<Longrightarrow> \<not> is_digit c \<Longrightarrow> Atoi_loop (ds @ c # rest) n = None"
  by (induction ds arbitrary: n) (simp_all add: byte_digit_iff Let_def)

lemma unat_of_nat64: "m < 2 ^ 64 \<Longrightarrow> unat (of_nat m :: 64 word) = m"
  by (simp add: unat_of_nat)

lemma digit_le_9: "is_digit c \<Longrightarrow> (of_char c :: nat) - 48 \<le> 9"
  unfolding is_digit_def by arith

lemma ParseUint_loop_step:
  assumes "is_digit c" and "m * 10 + (of_char c - 48) < 2 ^ 64"
  shows "ParseUint_loop (c # cs) (of_nat m) =
           ParseUint_loop cs (of_nat (m * 10 + (of_char c - 48)))"
proof -
  let ?d = "(of_char c :: nat) - 48"
  have m: "m < 2 ^ 64" using assms(2) by simp
  have m10: "m * 10 < 2 ^ 64" using assms(2) by simp
  have lt: "m < 1844674407370955162" using m10 by simp
  have c: "(1844674407370955162 \<le> (of_nat m :: 64 word)) = False"
    using lt by (simp add: word_le_nat_alt unat_of_nat64 [OF m])
  have e1: "(of_nat m :: 64 word) * 10 = of_nat (m * 10)" by simp
  have e2: "(of_nat (m * 10) :: 64 word) + of_nat ?d = of_nat (m * 10 + ?d)" by simp
  have u1: "unat (of_nat (m * 10) :: 64 word) = m * 10"
    by (rule unat_of_nat64 [OF m10])
  have u2: "unat (of_nat (m * 10 + ?d) :: 64 word) = m * 10 + ?d"
    by (rule unat_of_nat64 [OF assms(2)])
  have n: "((of_nat (m * 10 + ?d) :: 64 word) < of_nat (m * 10)) = False"
    unfolding word_less_nat_alt u1 u2 by simp
  have "48 \<le> (of_char c :: nat) \<and> (of_char c :: nat) \<le> 57"
    using assms(1) by (simp only: is_digit_def)
  then have b: "(48 \<le> (of_char c :: nat) \<and> (of_char c :: nat) \<le> 57) = True"
    by (rule eqTrueI)
  show ?thesis
    by (simp only: ParseUint_loop.simps Let_def b c e1 e2 n if_False if_True
          not_True_eq_False)
qed

lemma ParseUint_loop_digits:
  "list_all is_digit ds \<Longrightarrow> decimal_from m ds < 2 ^ 64 \<Longrightarrow>
   ParseUint_loop ds (of_nat m) = (of_nat (decimal_from m ds), None)"
proof (induction ds arbitrary: m)
  case Nil
  then show ?case by simp
next
  case (Cons c cs)
  then have d: "is_digit c" and r: "list_all is_digit cs" by simp_all
  let ?m = "m * 10 + (of_char c - 48)"
  have f: "decimal_from ?m cs < 2 ^ 64" using Cons.prems(2) by simp
  with decimal_from_ge [of ?m cs] have s: "?m < 2 ^ 64" by simp
  from ParseUint_loop_step [OF d s] Cons.IH [OF r f] show ?case by simp
qed

lemma ParseUint_loop_bad:
  "list_all is_digit ds \<Longrightarrow> \<not> is_digit c \<Longrightarrow> decimal_from m ds < 2 ^ 64 \<Longrightarrow>
   ParseUint_loop (ds @ c # rest) (of_nat m) = (0, Some ErrSyntax)"
proof (induction ds arbitrary: m)
  case Nil
  then show ?case by (auto simp: is_digit_def Let_def)
next
  case (Cons a cs)
  then have d: "is_digit a" and r: "list_all is_digit cs" by simp_all
  let ?m = "m * 10 + (of_char a - 48)"
  have f: "decimal_from ?m cs < 2 ^ 64" using Cons.prems(3) by simp
  with decimal_from_ge [of ?m cs] have s: "?m < 2 ^ 64" by simp
  from ParseUint_loop_step [OF d s] Cons.IH [OF r Cons.prems(2) f] show ?case by simp
qed

lemma ParseUint_loop_overflow:
  "list_all is_digit ds \<Longrightarrow> m < 2 ^ 64 \<Longrightarrow> 2 ^ 64 \<le> decimal_from m ds \<Longrightarrow>
   ParseUint_loop (ds @ rest) (of_nat m) = (18446744073709551615, Some ErrRange)"
proof (induction ds arbitrary: m)
  case Nil
  then show ?case by simp
next
  case (Cons c cs)
  then have d: "is_digit c" and r: "list_all is_digit cs" by simp_all
  let ?d = "(of_char c :: nat) - 48"
  let ?m = "m * 10 + ?d"
  have b: "48 \<le> (of_char c :: nat) \<and> (of_char c :: nat) \<le> 57"
    using d by (simp add: is_digit_def)
  have f: "2 ^ 64 \<le> decimal_from ?m cs" using Cons.prems(3) by simp
  show ?case
  proof (cases "?m < 2 ^ 64")
    case True
    from ParseUint_loop_step [OF d True] Cons.IH [OF r True f] show ?thesis by simp
  next
    case False
    show ?thesis
    proof (cases "1844674407370955162 \<le> m")
      case True
      then have "(of_nat m :: 64 word) \<ge> 1844674407370955162"
        by (simp add: word_le_nat_alt unat_of_nat64 [OF Cons.prems(2)])
      with b show ?thesis by (simp add: Let_def)
    next
      case F2: False
      then have c: "\<not> (of_nat m :: 64 word) \<ge> 1844674407370955162"
        by (simp add: word_le_nat_alt unat_of_nat64 [OF Cons.prems(2)])
      have m10: "m * 10 < 2 ^ 64" using F2 by simp
      have u1: "unat ((of_nat m :: 64 word) * 10) = m * 10"
        using unat_of_nat64 [OF m10] by simp
      have "?d \<le> 9" by (rule digit_le_9 [OF d])
      also have "(9::nat) < 2 ^ 64" by simp
      finally have dl: "?d < 2 ^ 64" .
      have u2: "unat (of_nat ?d :: 64 word) = ?d"
        by (rule unat_of_nat64 [OF dl])
      have "unat ((of_nat m :: 64 word) * 10 + of_nat ?d) = m * 10 + ?d - 2 ^ 64"
        using False by (simp add: unat_plus_if' u1 u2)
      moreover have "m * 10 + ?d - 2 ^ 64 < m * 10"
        using digit_le_9 [OF d] m10 False by simp
      ultimately have "(of_nat m :: 64 word) * 10 + of_nat ?d < of_nat m * 10"
        using u1 by (simp add: word_less_nat_alt)
      with b c show ?thesis by (simp add: Let_def)
    qed
  qed
qed


lemma decimal_from_bound:
  "list_all is_digit ds \<Longrightarrow> decimal_from m ds < (m + 1) * 10 ^ length ds"
proof (induction ds arbitrary: m)
  case Nil
  then show ?case by simp
next
  case (Cons c cs)
  then have d: "is_digit c" and r: "list_all is_digit cs" by simp_all
  have "decimal_from (m * 10 + (of_char c - 48)) cs
          < (m * 10 + (of_char c - 48) + 1) * 10 ^ length cs"
    by (rule Cons.IH [OF r])
  also have "\<dots> \<le> ((m + 1) * 10) * 10 ^ length cs"
    using digit_le_9 [OF d] by (intro mult_right_mono) simp_all
  finally show ?case by (simp add: algebra_simps)
qed

lemma decimal_short:
  assumes "list_all is_digit ds" and "length ds \<le> 18"
  shows "decimal ds < 2 ^ 63"
proof -
  have "decimal ds < 10 ^ length ds"
    using decimal_from_bound [OF assms(1), of 0] by (simp add: decimal_def)
  also have "(10::nat) ^ length ds \<le> 10 ^ 18"
    using assms(2) by (intro power_increasing) simp_all
  also have "(10::nat) ^ 18 < 2 ^ 63" by simp
  finally show ?thesis .
qed

lemma ParseUint_digits:
  assumes "ds \<noteq> []" and "list_all is_digit ds"
  shows "ParseUint ds =
     (if decimal ds < 2 ^ 64 then (of_nat (decimal ds), None)
      else (18446744073709551615, Some ErrRange))"
proof (cases "decimal ds < 2 ^ 64")
  case True
  then have "decimal_from 0 ds < 2 ^ 64" by (simp add: decimal_def)
  from ParseUint_loop_digits [OF assms(2) this] assms(1) True show ?thesis
    by (simp add: ParseUint_def decimal_def)
next
  case False
  then have "2 ^ 64 \<le> decimal_from 0 ds" by (simp add: decimal_def)
  from ParseUint_loop_overflow [OF assms(2) _ this, of "[]"] assms(1) False show ?thesis
    by (simp add: ParseUint_def)
qed


lemma strip_sign_Cons:
  "strip_sign (c # cs) = (if c = CHR ''+'' \<or> c = CHR ''-'' then cs else c # cs)"
  by (simp add: strip_sign_def)

lemma ParseInt_numeral:
  assumes "is_numeral s"
  shows "ParseInt s =
     (if has_minus s
      then (if decimal (strip_sign s) \<le> 2 ^ 63 then (- of_nat (decimal (strip_sign s)), None)
            else (- 9223372036854775808, Some ErrRange))
      else (if decimal (strip_sign s) < 2 ^ 63 then (of_nat (decimal (strip_sign s)), None)
            else (9223372036854775807, Some ErrRange)))"
proof -
  from assms obtain c cs where s: "s = c # cs"
    by (cases s) (simp_all add: is_numeral_def strip_sign_def)
  let ?ds = "strip_sign s"
  let ?n = "decimal ?ds"
  have ds: "?ds \<noteq> []" "list_all is_digit ?ds" using assms by (simp_all add: is_numeral_def)
  have s1: "(if c = CHR ''+'' \<or> c = CHR ''-'' then cs else s) = ?ds"
    by (simp add: s strip_sign_Cons)
  have neg: "has_minus s = (c = CHR ''-'')" by (simp add: s has_minus_def)
  have pi: "ParseInt s =
      (let (un, err) = ParseUint ?ds
       in if err = Some ErrSyntax then (0, err)
          else if \<not> has_minus s \<and> un \<ge> 9223372036854775808
            then (9223372036854775807, Some ErrRange)
          else if has_minus s \<and> un > 9223372036854775808
            then (- 9223372036854775808, Some ErrRange)
          else (if has_minus s then - un else un, None))"
    unfolding neg by (simp add: ParseInt_def s strip_sign_Cons Let_def)
  show ?thesis
  proof (cases "?n < 2 ^ 64")
    case True
    then have pu: "ParseUint ?ds = (of_nat ?n, None)"
      using ParseUint_digits [OF ds] by simp
    have u: "unat (of_nat ?n :: 64 word) = ?n" by (rule unat_of_nat64 [OF True])
    have ge: "((of_nat ?n :: 64 word) \<ge> 9223372036854775808) = (\<not> ?n < 2 ^ 63)"
      unfolding word_le_nat_alt u by (simp add: not_less)
    have gt: "((of_nat ?n :: 64 word) > 9223372036854775808) = (\<not> ?n \<le> 2 ^ 63)"
      unfolding word_less_nat_alt u by (simp add: not_le)
    show ?thesis
      unfolding pi pu by (simp only: Let_def prod.case ge gt) auto
  next
    case False
    then have pu: "ParseUint ?ds = (18446744073709551615, Some ErrRange)"
      using ParseUint_digits [OF ds] by simp
    from False have a: "\<not> ?n < 2 ^ 63" "\<not> ?n \<le> 2 ^ 63" by simp_all
    show ?thesis
      unfolding pi pu using a by (simp add: Let_def)
  qed
qed


lemma Atoi_long: "\<not> (0 < length s \<and> length s < 19) \<Longrightarrow> Atoi s = ParseInt s"
  by (simp only: Atoi_def if_False)

lemma Atoi_short:
  "0 < length s \<and> length s < 19 \<Longrightarrow>
   Atoi s =
     (let s1 = (if hd s = CHR ''-'' \<or> hd s = CHR ''+'' then tl s else s) in
      if s1 = [] then (0, Some ErrSyntax)
      else
        (case Atoi_loop s1 0 of
           None \<Rightarrow> (0, Some ErrSyntax)
         | Some n \<Rightarrow> (if hd s = CHR ''-'' then - n else n, None)))"
  by (simp only: Atoi_def if_True simp_thms)

lemma Atoi_numeral:
  assumes "is_numeral s"
  shows "Atoi s =
     (if has_minus s
      then (if decimal (strip_sign s) \<le> 2 ^ 63 then (- of_nat (decimal (strip_sign s)), None)
            else (- 9223372036854775808, Some ErrRange))
      else (if decimal (strip_sign s) < 2 ^ 63 then (of_nat (decimal (strip_sign s)), None)
            else (9223372036854775807, Some ErrRange)))"
proof (cases "0 < length s \<and> length s < 19")
  case False
  then have "Atoi s = ParseInt s" by (rule Atoi_long)
  with ParseInt_numeral [OF assms] show ?thesis by simp
next
  case True
  from assms obtain c cs where s: "s = c # cs"
    by (cases s) (simp_all add: is_numeral_def strip_sign_def)
  let ?ds = "strip_sign s"
  have ds: "?ds \<noteq> []" "list_all is_digit ?ds" using assms by (simp_all add: is_numeral_def)
  have s1: "(if hd s = CHR ''-'' \<or> hd s = CHR ''+'' then tl s else s) = ?ds"
    by (auto simp: s strip_sign_Cons)
  have neg: "(hd s = CHR ''-'') = has_minus s" by (simp add: s has_minus_def)
  have "length ?ds \<le> length s" by (simp add: s strip_sign_Cons)
  with True have "length ?ds \<le> 18" by simp
  from decimal_short [OF ds(2) this] have small: "decimal ?ds < 2 ^ 63" .
  have "Atoi_loop ?ds (of_nat 0) = Some (of_nat (decimal_from 0 ?ds))"
    by (rule Atoi_loop_digits [OF ds(2)])
  then have l: "Atoi_loop ?ds 0 = Some (of_nat (decimal ?ds))"
    by (simp add: decimal_def)
  have "Atoi s = (if has_minus s then - of_nat (decimal ?ds) else of_nat (decimal ?ds), None)"
    using ds(1) unfolding Atoi_short [OF True] s1 by (simp add: l neg Let_def)
  with small show ?thesis by simp
qed

lemma not_numeral_cases:
  assumes "\<not> is_numeral s"
  obtains "strip_sign s = []"
  | ds c rest where "strip_sign s = ds @ c # rest" "list_all is_digit ds" "\<not> is_digit c"
      "ds = takeWhile is_digit (strip_sign s)"
proof (cases "strip_sign s = []")
  case True
  then show thesis by (rule that(1))
next
  case False
  with assms have "\<not> list_all is_digit (strip_sign s)" by (simp add: is_numeral_def)
  then have "dropWhile is_digit (strip_sign s) \<noteq> []"
    by (simp add: list_all_iff)
  then obtain c rest where d: "dropWhile is_digit (strip_sign s) = c # rest"
    by (cases "dropWhile is_digit (strip_sign s)") simp_all
  have "strip_sign s = takeWhile is_digit (strip_sign s) @ c # rest"
    using takeWhile_dropWhile_id [of is_digit "strip_sign s"] d by simp
  moreover have "list_all is_digit (takeWhile is_digit (strip_sign s))"
    by (simp add: list_all_iff) (meson set_takeWhileD)
  moreover have "\<not> is_digit c"
    using d hd_dropWhile [of is_digit "strip_sign s"] by auto
  ultimately show thesis using that(2) by blast
qed

lemma ParseInt_syntax:
  assumes "\<not> is_numeral s" and "decimal (takeWhile is_digit (strip_sign s)) < 2 ^ 64"
  shows "ParseInt s = (0, Some ErrSyntax)"
proof (cases s)
  case Nil
  then show ?thesis by (simp add: ParseInt_def)
next
  case (Cons a as)
  have s1: "(if a = CHR ''+'' \<or> a = CHR ''-'' then as else s) = strip_sign s"
    by (simp add: Cons strip_sign_Cons)
  have "ParseUint (strip_sign s) = (0, Some ErrSyntax)"
  proof (cases rule: not_numeral_cases [OF assms(1)])
    case 1
    then show ?thesis by (simp add: ParseUint_def)
  next
    case (2 ds c rest)
    from assms(2) 2(4) have "decimal_from 0 ds < 2 ^ 64" by (simp add: decimal_def)
    from ParseUint_loop_bad [OF 2(2,3) this, of rest] 2(1) show ?thesis
      by (simp add: ParseUint_def)
  qed
  then show ?thesis
    by (simp add: ParseInt_def Cons strip_sign_Cons Let_def)
qed

lemma Atoi_syntax:
  assumes "\<not> is_numeral s" and "decimal (takeWhile is_digit (strip_sign s)) < 2 ^ 64"
  shows "Atoi s = (0, Some ErrSyntax)"
proof (cases "0 < length s \<and> length s < 19")
  case False
  then have "Atoi s = ParseInt s" by (rule Atoi_long)
  with ParseInt_syntax [OF assms] show ?thesis by simp
next
  case True
  then obtain a as where s: "s = a # as" by (cases s) simp_all
  have s1: "(if hd s = CHR ''-'' \<or> hd s = CHR ''+'' then tl s else s) = strip_sign s"
    by (auto simp: s strip_sign_Cons)
  show ?thesis
  proof (cases rule: not_numeral_cases [OF assms(1)])
    case 1
    then show ?thesis unfolding Atoi_short [OF True] s1 by (simp add: Let_def)
  next
    case (2 ds c rest)
    have "Atoi_loop (strip_sign s) 0 = None"
      unfolding 2(1) by (rule Atoi_loop_bad [OF 2(2,3)])
    then show ?thesis unfolding Atoi_short [OF True] s1 by (simp add: Let_def)
  qed
qed

lemma Atoi_short_syntax:
  assumes "\<not> is_numeral s" and "length s \<le> 19"
  shows "Atoi s = (0, Some ErrSyntax)"
proof -
  let ?p = "takeWhile is_digit (strip_sign s)"
  have "length ?p \<le> length (strip_sign s)" by (rule length_takeWhile_le)
  also have "\<dots> \<le> length s" by (cases s) (simp_all add: strip_sign_def)
  finally have len: "length ?p \<le> 19" using assms(2) by simp
  have dg: "list_all is_digit ?p"
    by (simp add: list_all_iff) (meson set_takeWhileD)
  have "decimal ?p < 10 ^ length ?p"
    using decimal_from_bound [OF dg, of 0] by (simp add: decimal_def)
  also have "(10::nat) ^ length ?p \<le> 10 ^ 19"
    using len by (intro power_increasing) simp_all
  also have "(10::nat) ^ 19 < 2 ^ 64" by simp
  finally show ?thesis by (rule Atoi_syntax [OF assms(1)])
qed

lemma Atoi_overflow_before_bad:
  assumes "\<not> is_numeral s" and "2 ^ 64 \<le> decimal (takeWhile is_digit (strip_sign s))"
  shows "Atoi s =
     (if has_minus s then (- 9223372036854775808, Some ErrRange)
      else (9223372036854775807, Some ErrRange))"
proof -
  let ?p = "takeWhile is_digit (strip_sign s)"
  have dg: "list_all is_digit ?p"
    by (simp add: list_all_iff) (meson set_takeWhileD)
  have "decimal ?p < 10 ^ length ?p"
    using decimal_from_bound [OF dg, of 0] by (simp add: decimal_def)
  with assms(2) have "(2::nat) ^ 64 < 10 ^ length ?p" by simp
  then have "\<not> length ?p \<le> 19"
  proof (rule contrapos_pn)
    assume "length ?p \<le> 19"
    then have "(10::nat) ^ length ?p \<le> 10 ^ 19" by (intro power_increasing) simp_all
    also have "(10::nat) ^ 19 < 2 ^ 64" by simp
    finally show "\<not> (2::nat) ^ 64 < 10 ^ length ?p" by simp
  qed
  moreover have "length ?p \<le> length (strip_sign s)" by (rule length_takeWhile_le)
  moreover have "length (strip_sign s) \<le> length s" by (cases s) (simp_all add: strip_sign_def)
  ultimately have long: "\<not> (0 < length s \<and> length s < 19)" by simp
  then have a: "Atoi s = ParseInt s" by (rule Atoi_long)
  have ne: "strip_sign s \<noteq> []" using assms(2) by (auto simp: decimal_def)
  then obtain c cs where s: "s = c # cs" by (cases s) (simp_all add: strip_sign_def)
  have "strip_sign s = ?p @ dropWhile is_digit (strip_sign s)" by simp
  then have "ParseUint_loop (strip_sign s) (of_nat 0) =
      ParseUint_loop (?p @ dropWhile is_digit (strip_sign s)) (of_nat 0)" by simp
  also have "\<dots> = (18446744073709551615, Some ErrRange)"
    using assms(2) by (intro ParseUint_loop_overflow [OF dg]) (simp_all add: decimal_def)
  finally have "ParseUint_loop (strip_sign s) 0 = (18446744073709551615, Some ErrRange)"
    by simp
  with ne have pu: "ParseUint (strip_sign s) = (18446744073709551615, Some ErrRange)"
    by (simp add: ParseUint_def)
  show ?thesis
    unfolding a using pu
    by (simp add: ParseInt_def s strip_sign_Cons has_minus_def Let_def)
qed

text \<open>
  Twenty digits overflow the accumulator before the letter is reached: the value
  is the largest \<^verbatim>\<open>int\<close>, not 0, and \<^verbatim>\<open>init\<close> keeps it.
\<close>

lemma overflow_before_bad_example:
  "checkInterval (init [''CHECK_INTERVAL_SECONDS'' \<mapsto> ''99999999999999999999x''])
     = 9223372036854775807"
  by (simp add: init_def atoi_or_def Getenv_def Atoi_def ParseInt_def ParseUint_def)

text \<open>Signed readings of 64-bit values that are in range.\<close>

lemma signed_take_bit_63:
  "- (2 ^ 63) \<le> (k::int) \<Longrightarrow> k < 2 ^ 63 \<Longrightarrow> signed_take_bit (63::nat) k = k"
  by (rule signed_take_bit_int_eq_self)

lemma sint_word_of_int64: "sint (word_of_int k :: 64 word) = signed_take_bit (63::nat) k"
  using sint_sbintrunc' [of k, where ?'a = 64] by simp

lemma sint_of_int64:
  "- (2 ^ 63) \<le> k \<Longrightarrow> k < 2 ^ 63 \<Longrightarrow> sint (word_of_int k :: 64 word) = k"
  by (simp only: sint_word_of_int64 signed_take_bit_63)

lemma sint_neg_of_nat:
  assumes "n \<le> 2 ^ 63"
  shows "sint (- (of_nat n :: 64 word)) = - int n"
proof -
  have e: "- (of_nat n :: 64 word) = word_of_int (- int n)" by simp
  have "int n \<le> int (2 ^ 63)" using assms by (simp only: of_nat_le_iff)
  then have a: "- (2 ^ 63) \<le> - int n" by simp
  have "- int n \<le> 0" by simp
  also have "(0::int) < 2 ^ 63" by simp
  finally have b: "- int n < 2 ^ 63" .
  show ?thesis unfolding e by (rule sint_of_int64 [OF a b])
qed

text \<open>
  \<^verbatim>\<open>time.Duration(n) * time.Second\<close> is \<open>n\<close> seconds as long as the product
  fits an \<^verbatim>\<open>int64\<close>.
\<close>

lemma seconds_exact:
  assumes "0 \<le> sint (n :: 64 word)" and "sint n \<le> 9223372036"
  shows "sint (n * Second) = sint n * 1000000000"
proof -
  have e: "n * Second = word_of_int (sint n * 1000000000)" by (simp add: Second_def)
  have "(0::int) \<le> sint n * 1000000000" using assms(1) by simp
  then have a: "- (2 ^ 63) \<le> sint n * 1000000000" by simp
  have b: "sint n * 1000000000 < 2 ^ 63" using assms(2) by simp
  show ?thesis unfolding e by (rule sint_of_int64 [OF a b])
qed

section \<open>The functions, step by step\<close>

lemma Getenv_unset: "env k = None \<Longrightarrow> Getenv env k = []"
  by (simp add: Getenv_def)

lemma Atoi_empty: "Atoi [] = (0, Some ErrSyntax)"
  by (simp add: Atoi_def ParseInt_def)

lemma atoi_or_unset: "env k = None \<Longrightarrow> atoi_or env k d = d"
  by (simp add: atoi_or_def Getenv_unset Atoi_empty)

lemma settings_atoi_or:
  "(k, get, d) \<in> set settings \<Longrightarrow> get (init env) = atoi_or env k d"
  by (auto simp: settings_def init_def)

lemma Getenv_set: "env k = Some v \<Longrightarrow> Getenv env k = v"
  by (simp add: Getenv_def)

lemma init_example: "init example_env = example_cfg"
  by (simp add: init_def example_env_def example_cfg_def Getenv_def atoi_or_def Atoi_def
        ParseInt_def)

text \<open>The encoder leaves valid UTF-8, and so every ASCII string, as it is.\<close>

lemma coerce_utf8_valid: "ValidString s \<Longrightarrow> coerce_utf8 s = s"
  by (induction s rule: coerce_utf8.induct) (auto split: if_splits)

lemma ascii_rune_size: "(of_char c :: nat) < 128 \<Longrightarrow> rune_size (c # cs) = 1"
  by simp

lemma ascii_ValidString: "list_all (\<lambda>c. (of_char c :: nat) < 128) s \<Longrightarrow> ValidString s"
  by (induction s) (simp_all del: rune_size.simps add: ascii_rune_size)

lemma coerce_utf8_ascii:
  "list_all (\<lambda>c. (of_char c :: nat) < 128) s \<Longrightarrow> coerce_utf8 s = s"
  by (rule coerce_utf8_valid) (rule ascii_ValidString)

declare rune_size.simps [simp del]
declare coerce_utf8.simps [simp del]
declare ValidString.simps [simp del]

lemma getInstanceTypes_eq:
  "serve_instance_types net (fetchRequest cfg) (world s) = (rep, w) \<Longrightarrow>
   getInstanceTypes cfg net s =
     (returned empty_InstanceTypes rep,
      s\<lparr> world := w,
         trace := trace s @
           [Log (LogChecking (instanceTypeName cfg)), Fetch (fetchRequest cfg) rep] \<rparr>)"
  by (cases rep)
     (simp_all add: getInstanceTypes_def NewRequest_def SetBasicAuth_def emit_def
        fetchRequest_def baseUrl_def)

lemma launchInstance_eq:
  "serve_launch net (launchRequest cfg r) (world s) = (rep, w) \<Longrightarrow>
   launchInstance cfg net r s =
     (returned JNull rep,
      s\<lparr> world := w, trace := trace s @ [Launch (launchRequest cfg r) rep] \<rparr>)"
  by (cases rep)
     (simp_all add: launchInstance_def Marshal_def NewRequest_def SetBasicAuth_def
        Header_Set_def emit_def launchRequest_def baseUrl_def)

lemma snd_returned: "snd (returned z rep) = failure rep"
  by (cases rep) simp_all

text \<open>Each of the two functions fails exactly when the reply to its request is a failure.\<close>

lemma getInstanceTypes_err:
  "snd (fst (getInstanceTypes cfg net s)) =
     failure (fst (serve_instance_types net (fetchRequest cfg) (world s)))"
proof -
  obtain rep w where f: "serve_instance_types net (fetchRequest cfg) (world s) = (rep, w)"
    by (cases "serve_instance_types net (fetchRequest cfg) (world s)")
  from getInstanceTypes_eq [OF f] f show ?thesis by (simp add: snd_returned)
qed

lemma launchInstance_err:
  "snd (fst (launchInstance cfg net r s)) =
     failure (fst (serve_launch net (launchRequest cfg r) (world s)))"
proof -
  obtain rep w where l: "serve_launch net (launchRequest cfg r) (world s) = (rep, w)"
    by (cases "serve_launch net (launchRequest cfg r) (world s)")
  from launchInstance_eq [OF l] l show ?thesis by (simp add: snd_returned)
qed

lemma checkInstanceAvailability_err: "snd (checkInstanceAvailability cfg it) = None"
  by (simp add: checkInstanceAvailability_def split: option.splits list.splits)

lemma checkInstanceAvailability_pair:
  "checkInstanceAvailability cfg it = (fst (checkInstanceAvailability cfg it), None)"
  using checkInstanceAvailability_err [of cfg it] by (simp add: prod_eq_iff)

text \<open>The four ways through the body of the loop, by what the provider answers.\<close>

lemma body_fetch_failed:
  assumes "serve_instance_types net (fetchRequest cfg) (world s) = (rep, w)"
    and "failure rep = Some e"
  shows "launchInstanceLoop_body cfg net s =
     (Continue,
      s\<lparr> world := w,
         trace := trace s @
           [Log LogSeparator, Log (LogChecking (instanceTypeName cfg)),
            Fetch (fetchRequest cfg) rep,
            Log (LogFetchError e (errorWait cfg)), Sleep (errorWait cfg * Second)],
         healthStatus := health_error e \<rparr>)"
  using assms
  by (cases rep)
     (simp_all add: launchInstanceLoop_body_def getInstanceTypes_eq emit_def health_error_def)

lemma body_no_capacity:
  assumes "serve_instance_types net (fetchRequest cfg) (world s) = (Decoded it, w)"
    and "fst (checkInstanceAvailability cfg it) = []"
  shows "launchInstanceLoop_body cfg net s =
     (Continue,
      s\<lparr> world := w,
         trace := trace s @
           [Log LogSeparator, Log (LogChecking (instanceTypeName cfg)),
            Fetch (fetchRequest cfg) (Decoded it),
            Log (LogNoRegions (instanceTypeName cfg) (checkInterval cfg)),
            Sleep (checkInterval cfg * Second)] \<rparr>)"
proof -
  have c: "checkInstanceAvailability cfg it = ([], None)"
    using assms(2) checkInstanceAvailability_pair [of cfg it] by simp
  show ?thesis
    using assms(1) by (simp add: launchInstanceLoop_body_def getInstanceTypes_eq emit_def c)
qed

lemma body_launch_failed:
  assumes "serve_instance_types net (fetchRequest cfg) (world s) = (Decoded it, w)"
    and "fst (checkInstanceAvailability cfg it) = r" and "r \<noteq> []"
    and "serve_launch net (launchRequest cfg r) w = (rep, w')"
    and "failure rep = Some e"
  shows "launchInstanceLoop_body cfg net s =
     (Continue,
      s\<lparr> world := w',
         trace := trace s @
           [Log LogSeparator, Log (LogChecking (instanceTypeName cfg)),
            Fetch (fetchRequest cfg) (Decoded it),
            Launch (launchRequest cfg r) rep,
            Log (LogLaunchError e (errorWait cfg)), Sleep (errorWait cfg * Second)],
         healthStatus := health_error e \<rparr>)"
proof -
  have c: "checkInstanceAvailability cfg it = (r, None)"
    using assms(2) checkInstanceAvailability_pair [of cfg it] by simp
  show ?thesis
    using assms(1,3,4,5)
    by (cases rep)
       (simp_all add: launchInstanceLoop_body_def getInstanceTypes_eq launchInstance_eq
          emit_def c health_error_def)
qed

lemma body_launched:
  assumes "serve_instance_types net (fetchRequest cfg) (world s) = (Decoded it, w)"
    and "fst (checkInstanceAvailability cfg it) = r" and "r \<noteq> []"
    and "serve_launch net (launchRequest cfg r) w = (Decoded res, w')"
  shows "launchInstanceLoop_body cfg net s =
     (Break,
      s\<lparr> world := w',
         trace := trace s @
           [Log LogSeparator, Log (LogChecking (instanceTypeName cfg)),
            Fetch (fetchRequest cfg) (Decoded it),
            Launch (launchRequest cfg r) (Decoded res),
            Log (LogLaunchResult res)],
         healthStatus := health_launched res \<rparr>)"
proof -
  have c: "checkInstanceAvailability cfg it = (r, None)"
    using assms(2) checkInstanceAvailability_pair [of cfg it] by simp
  show ?thesis
    using assms(1,3,4)
    by (simp add: launchInstanceLoop_body_def getInstanceTypes_eq launchInstance_eq
          emit_def c health_launched_def)
qed

lemma failure_cases: "(\<exists>e. failure rep = Some e) \<or> (\<exists>v. rep = Decoded v)"
  by (cases rep) simp_all

text \<open>Every pass is one of the four.\<close>

lemma body_cases [case_names fetch_failed no_capacity launch_failed launched]:
  obtains
    rep w e where
      "serve_instance_types net (fetchRequest cfg) (world s) = (rep, w)"
      "failure rep = Some e"
  | it w where
      "serve_instance_types net (fetchRequest cfg) (world s) = (Decoded it, w)"
      "fst (checkInstanceAvailability cfg it) = []"
  | it w r rep w' e where
      "serve_instance_types net (fetchRequest cfg) (world s) = (Decoded it, w)"
      "fst (checkInstanceAvailability cfg it) = r" "r \<noteq> []"
      "serve_launch net (launchRequest cfg r) w = (rep, w')"
      "failure rep = Some e"
  | it w r res w' where
      "serve_instance_types net (fetchRequest cfg) (world s) = (Decoded it, w)"
      "fst (checkInstanceAvailability cfg it) = r" "r \<noteq> []"
      "serve_launch net (launchRequest cfg r) w = (Decoded res, w')"
proof -
  obtain rep w where f: "serve_instance_types net (fetchRequest cfg) (world s) = (rep, w)"
    by (cases "serve_instance_types net (fetchRequest cfg) (world s)")
  show thesis
  proof (cases rep)
    case (Decoded it)
    show thesis
    proof (cases "fst (checkInstanceAvailability cfg it) = []")
      case True
      with f Decoded that(2) show thesis by simp
    next
      case False
      obtain rep2 w' where
        l: "serve_launch net (launchRequest cfg (fst (checkInstanceAvailability cfg it))) w
              = (rep2, w')"
        by (cases "serve_launch net (launchRequest cfg (fst (checkInstanceAvailability cfg it))) w")
      from failure_cases [of rep2] show thesis
      proof
        assume "\<exists>e. failure rep2 = Some e"
        then obtain e where "failure rep2 = Some e" ..
        with f Decoded False l that(3) show thesis by simp
      next
        assume "\<exists>v. rep2 = Decoded v"
        then obtain v where "rep2 = Decoded v" ..
        with f Decoded False l that(4) show thesis by simp
      qed
    qed
  next
    case (DoFailed e)
    with f that(1) show thesis by simp
  next
    case (DecodeFailed e)
    with f that(1) show thesis by simp
  qed
qed

section \<open>The loop as a whole\<close>

text \<open>More passes change nothing once the loop has left through its \<^verbatim>\<open>break\<close>.\<close>

lemma loop_Break_stable:
  "launchInstanceLoop n cfg net s = (Break, s') \<Longrightarrow>
   launchInstanceLoop (n + k) cfg net s = (Break, s')"
proof (induction n arbitrary: s)
  case 0
  then show ?case by simp
next
  case (Suc n)
  obtain c s1 where b: "launchInstanceLoop_body cfg net s = (c, s1)"
    by (cases "launchInstanceLoop_body cfg net s")
  show ?case
  proof (cases c)
    case Continue
    with b Suc.prems have "launchInstanceLoop n cfg net s1 = (Break, s')" by simp
    from Suc.IH [OF this] b Continue show ?thesis by simp
  next
    case Break
    with b Suc.prems show ?thesis by simp
  qed
qed

text \<open>What a pass, and then any number of passes, add to the trace.\<close>

lemma body_trace_Continue:
  assumes "launchInstanceLoop_body cfg net s = (Continue, s')"
  shows "\<exists>new. trace s' = trace s @ new \<and> list_all (\<lambda>x. \<not> launched x) new"
proof (cases rule: body_cases [of net cfg s])
  case (fetch_failed rep w e)
  from body_fetch_failed [OF this] assms fetch_failed(2) show ?thesis
    by (cases rep) auto
next
  case (no_capacity it w)
  from body_no_capacity [OF this] assms show ?thesis by auto
next
  case (launch_failed it w r rep w' e)
  from body_launch_failed [OF this] assms launch_failed(5) show ?thesis
    by (cases rep) auto
next
  case (launched it w r res w')
  from body_launched [OF this] assms show ?thesis by simp
qed

lemma body_trace_Break:
  assumes "launchInstanceLoop_body cfg net s = (Break, s')"
  shows "\<exists>it r res. r \<noteq> [] \<and> trace s' = trace s @
           [Log LogSeparator, Log (LogChecking (instanceTypeName cfg)),
            Fetch (fetchRequest cfg) (Decoded it),
            Launch (launchRequest cfg r) (Decoded res),
            Log (LogLaunchResult res)]
         \<and> healthStatus s' = health_launched res"
proof (cases rule: body_cases [of net cfg s])
  case (fetch_failed rep w e)
  from body_fetch_failed [OF this] assms show ?thesis by simp
next
  case (no_capacity it w)
  from body_no_capacity [OF this] assms show ?thesis by simp
next
  case (launch_failed it w r rep w' e)
  from body_launch_failed [OF this] assms show ?thesis by simp
next
  case (launched it w r res w')
  from body_launched [OF this] assms launched(3) show ?thesis by auto
qed

lemma loop_trace:
  "launchInstanceLoop n cfg net s = (c, s') \<Longrightarrow>
   \<exists>new. trace s' = trace s @ new \<and>
     (c = Continue \<longrightarrow> list_all (\<lambda>x. \<not> launched x) new) \<and>
     (c = Break \<longrightarrow>
        (\<exists>pre rq res. new = pre @ [Launch rq (Decoded res), Log (LogLaunchResult res)]
           \<and> list_all (\<lambda>x. \<not> launched x) pre \<and> healthStatus s' = health_launched res))"
proof (induction n arbitrary: s)
  case 0
  then show ?case by auto
next
  case (Suc n)
  obtain b s1 where b: "launchInstanceLoop_body cfg net s = (b, s1)"
    by (cases "launchInstanceLoop_body cfg net s")
  show ?case
  proof (cases b)
    case Continue
    with b Suc.prems have l: "launchInstanceLoop n cfg net s1 = (c, s')" by simp
    from b Continue body_trace_Continue obtain new1 where
      n1: "trace s1 = trace s @ new1" "list_all (\<lambda>x. \<not> launched x) new1" by blast
    from Suc.IH [OF l] obtain new2 where
      n2: "trace s' = trace s1 @ new2"
          "c = Continue \<longrightarrow> list_all (\<lambda>x. \<not> launched x) new2"
          "c = Break \<longrightarrow>
             (\<exists>pre rq res. new2 = pre @ [Launch rq (Decoded res), Log (LogLaunchResult res)]
               \<and> list_all (\<lambda>x. \<not> launched x) pre \<and> healthStatus s' = health_launched res)"
      by blast
    show ?thesis
    proof (cases c)
      case Continue
      with n1 n2 show ?thesis by auto
    next
      case Break
      with n2(3) obtain pre rq res where
        p: "new2 = pre @ [Launch rq (Decoded res), Log (LogLaunchResult res)]"
           "list_all (\<lambda>x. \<not> launched x) pre" "healthStatus s' = health_launched res"
        by blast
      have "trace s' = trace s @ (new1 @ pre) @ [Launch rq (Decoded res), Log (LogLaunchResult res)]"
        using n1(1) n2(1) p(1) by simp
      moreover have "list_all (\<lambda>x. \<not> launched x) (new1 @ pre)"
        using n1(2) p(2) by simp
      ultimately show ?thesis using Break p(3) by blast
    qed
  next
    case Break
    with b Suc.prems have e: "c = Break" "s' = s1" by simp_all
    from body_trace_Break [of cfg net s s1] b Break obtain it r res where
      "trace s1 = trace s @
           [Log LogSeparator, Log (LogChecking (instanceTypeName cfg)),
            Fetch (fetchRequest cfg) (Decoded it),
            Launch (launchRequest cfg r) (Decoded res),
            Log (LogLaunchResult res)]" "healthStatus s1 = health_launched res"
      by blast
    then have "trace s' = trace s @
        ([Log LogSeparator, Log (LogChecking (instanceTypeName cfg)),
            Fetch (fetchRequest cfg) (Decoded it)] @
            [Launch (launchRequest cfg r) (Decoded res),
            Log (LogLaunchResult res)])"
       "list_all (\<lambda>x. \<not> launched x) [Log LogSeparator, Log (LogChecking (instanceTypeName cfg)),
            Fetch (fetchRequest cfg) (Decoded it)]" "healthStatus s' = health_launched res"
      using e by simp_all
    with e show ?thesis by blast
  qed
qed

lemma split_unique:
  "list_all (\<lambda>x. \<not> P x) pre \<Longrightarrow> list_all (\<lambda>x. \<not> P x) post \<Longrightarrow>
   pre @ e # post = pre' @ e' # post' \<Longrightarrow> P e' \<Longrightarrow> pre' = pre \<and> e' = e \<and> post' = post"
proof (induction pre arbitrary: pre')
  case Nil
  then show ?case by (cases pre') (auto simp: list_all_iff)
next
  case (Cons a pre)
  then show ?case by (cases pre') (auto simp: list_all_iff)
qed

text \<open>A property that every pass keeps holds after any number of passes.\<close>

lemma loop_invariant:
  assumes "P s"
    and "\<And>s c s'. P s \<Longrightarrow> launchInstanceLoop_body cfg net s = (c, s') \<Longrightarrow> P s'"
  shows "P (snd (launchInstanceLoop n cfg net s))"
  using assms(1)
proof (induction n arbitrary: s)
  case 0
  then show ?case by simp
next
  case (Suc n)
  obtain b s1 where b: "launchInstanceLoop_body cfg net s = (b, s1)"
    by (cases "launchInstanceLoop_body cfg net s")
  from assms(2) [OF Suc.prems b] have p: "P s1" .
  show ?case
  proof (cases b)
    case Continue
    with b Suc.IH [OF p] show ?thesis by simp
  next
    case Break
    with b p show ?thesis by simp
  qed
qed

lemma body_no_check_error:
  assumes "list_all (\<lambda>x. \<not> is_check_error x) (trace s)"
    and "launchInstanceLoop_body cfg net s = (c, s')"
  shows "list_all (\<lambda>x. \<not> is_check_error x) (trace s')"
proof (cases rule: body_cases [of net cfg s])
  case (fetch_failed rep w e)
  from body_fetch_failed [OF this] assms show ?thesis by auto
next
  case (no_capacity it w)
  from body_no_capacity [OF this] assms show ?thesis by auto
next
  case (launch_failed it w r rep w' e)
  from body_launch_failed [OF this] assms show ?thesis by auto
next
  case (launched it w r res w')
  from body_launched [OF this] assms show ?thesis by auto
qed

text \<open>Every pass begins by asking for the availability.\<close>

lemma body_starts_with_fetch:
  "\<exists>rep rest. trace (snd (launchInstanceLoop_body cfg net s)) =
      trace s @ Log LogSeparator # Log (LogChecking (instanceTypeName cfg))
        # Fetch (fetchRequest cfg) rep # rest"
proof (cases rule: body_cases [of net cfg s])
  case (fetch_failed rep w e)
  from body_fetch_failed [OF this] show ?thesis by simp
next
  case (no_capacity it w)
  from body_no_capacity [OF this] show ?thesis by simp
next
  case (launch_failed it w r rep w' e)
  from body_launch_failed [OF this] show ?thesis by simp
next
  case (launched it w r res w')
  from body_launched [OF this] show ?thesis by simp
qed

lemmas loop_defs =
  main_def initial_def launchInstanceLoop_body_def getInstanceTypes_def launchInstance_def
  checkInstanceAvailability_def NewRequest_def SetBasicAuth_def Header_Set_def Marshal_def
  emit_def baseUrl_def scripted_def catalog_def example_cfg_def example_world_def
  flaky_world_def coerce_utf8_ascii

text \<open>The run of the example, pass by pass.\<close>

lemma main_example_4:
  "main 4 example_cfg scripted example_world =
    (Break,
     \<lparr> world = ([], []),
       trace =
        [Log LogSeparator, Log (LogChecking ''gpu_1x_a6000''),
         Fetch (fetchRequest example_cfg)
           (Decoded (catalog ''gpu_1x_a6000'' [''us-east-1'', ''us-west-2''])),
         Launch (launchRequest example_cfg ''us-east-1'') (DoFailed (Err ''connection reset'')),
         Log (LogLaunchError (Err ''connection reset'') 10), Sleep 10000000000,
         Log LogSeparator, Log (LogChecking ''gpu_1x_a6000''),
         Fetch (fetchRequest example_cfg) (DoFailed (Err ''connection refused'')),
         Log (LogFetchError (Err ''connection refused'') 10), Sleep 10000000000,
         Log LogSeparator, Log (LogChecking ''gpu_1x_a6000''),
         Fetch (fetchRequest example_cfg) (Decoded (catalog ''gpu_1x_a6000'' [''us-west-2''])),
         Launch (launchRequest example_cfg ''us-west-2'') (DecodeFailed (Err ''unexpected EOF'')),
         Log (LogLaunchError (Err ''unexpected EOF'') 10), Sleep 10000000000,
         Log LogSeparator, Log (LogChecking ''gpu_1x_a6000''),
         Fetch (fetchRequest example_cfg) (Decoded (catalog ''gpu_1x_a6000'' [''us-east-1''])),
         Launch (launchRequest example_cfg ''us-east-1'')
           (Decoded (JObject [(''id'', JString ''abc123'')])),
         Log (LogLaunchResult (JObject [(''id'', JString ''abc123'')]))],
       healthStatus =
         \<lparr> Status = ''instance launched'', Result = JObject [(''id'', JString ''abc123'')],
           Error = [] \<rparr> \<rparr>)"
  by (simp add: loop_defs numeral_eq_Suc fetchRequest_def launchRequest_def Second_def)

section \<open>The two copies agree\<close>

text \<open>
  The copy without the health endpoint does to the provider, the log and the clock
  what the copy with it does: its state is that of the other with
  \<^verbatim>\<open>healthStatus\<close> left out, pass by pass.
\<close>

lemma body_plain_simulation:
  "launchInstanceLoop_body_plain cfg net (state.truncate s) =
     (fst (launchInstanceLoop_body cfg net s),
      state.truncate (snd (launchInstanceLoop_body cfg net s)))"
proof -
  have w: "world (state.truncate s) = world s" and t: "trace (state.truncate s) = trace s"
    by (simp_all add: state.truncate_def)
  show ?thesis
  proof (cases rule: body_cases [of net cfg s])
    case (fetch_failed rep w e)
    from body_fetch_failed [OF this] fetch_failed show ?thesis
      by (cases rep)
         (simp_all add: launchInstanceLoop_body_plain_def getInstanceTypes_eq emit_def
            state.truncate_def)
  next
    case (no_capacity it w)
    have c: "checkInstanceAvailability cfg it = ([], None)"
      using no_capacity(2) checkInstanceAvailability_pair [of cfg it] by simp
    from body_no_capacity [OF no_capacity] no_capacity(1) show ?thesis
      by (simp add: launchInstanceLoop_body_plain_def getInstanceTypes_eq emit_def
            state.truncate_def c)
  next
    case (launch_failed it w r rep w' e)
    have c: "checkInstanceAvailability cfg it = (r, None)"
      using launch_failed(2) checkInstanceAvailability_pair [of cfg it] by simp
    from body_launch_failed [OF launch_failed] launch_failed(1,3,4,5) show ?thesis
      by (cases rep)
         (simp_all add: launchInstanceLoop_body_plain_def getInstanceTypes_eq
            launchInstance_eq emit_def state.truncate_def c)
  next
    case (launched it w r res w')
    have c: "checkInstanceAvailability cfg it = (r, None)"
      using launched(2) checkInstanceAvailability_pair [of cfg it] by simp
    from body_launched [OF launched] launched(1,3,4) show ?thesis
      by (simp add: launchInstanceLoop_body_plain_def getInstanceTypes_eq
            launchInstance_eq emit_def state.truncate_def c)
  qed
qed

lemma loop_plain_simulation:
  "launchInstanceLoop_plain n cfg net (state.truncate s) =
     (fst (launchInstanceLoop n cfg net s),
      state.truncate (snd (launchInstanceLoop n cfg net s)))"
proof (induction n arbitrary: s)
  case 0
  then show ?case by simp
next
  case (Suc n)
  obtain c s1 where b: "launchInstanceLoop_body cfg net s = (c, s1)"
    by (cases "launchInstanceLoop_body cfg net s")
  with body_plain_simulation [of cfg net s]
  have p: "launchInstanceLoop_body_plain cfg net (state.truncate s) = (c, state.truncate s1)"
    by simp
  show ?case
  proof (cases c)
    case Continue
    with b p Suc.IH [of s1] show ?thesis by simp
  next
    case Break
    with b p show ?thesis by simp
  qed
qed

lemma main_plain_simulation:
  "main_plain n cfg net w =
     (fst (main n cfg net w), state.truncate (snd (main n cfg net w)))"
  using loop_plain_simulation [of n cfg net "initial w"]
  by (simp add: main_plain_def main_def initial_def state.truncate_def)

section \<open>Choosing the region\<close>

text \<open>
  C2. Whenever the catalog maps the configured instance type to a region list that
  is not empty, \<^verbatim>\<open>checkInstanceAvailability\<close> returns the name of the first
  region of the list and a nil error, whatever the rest of the list is.
\<close>

theorem first_region_selected:
  assumes "Data it (instanceTypeName cfg) = Some d"
    and "RegionsWithCapacityAvailable d \<noteq> []"
  shows "checkInstanceAvailability cfg it = (Name (RegionsWithCapacityAvailable d ! 0), None)"
  using assms by (simp add: checkInstanceAvailability_def split: list.splits)

text \<open>The catalog of the specification's scenario: the first of two regions.\<close>

theorem first_region_selected_witness:
  "Data (catalog ''gpu_1x_a6000'' [''us-east-1'', ''us-west-2'']) (instanceTypeName example_cfg)
     = Some \<lparr> RegionsWithCapacityAvailable = [\<lparr> Name = ''us-east-1'' \<rparr>, \<lparr> Name = ''us-west-2'' \<rparr>] \<rparr>
   \<and> checkInstanceAvailability example_cfg (catalog ''gpu_1x_a6000'' [''us-east-1'', ''us-west-2''])
     = (''us-east-1'', None)"
  using first_region_selected [of "catalog ''gpu_1x_a6000'' [''us-east-1'', ''us-west-2'']" example_cfg
     "\<lparr> RegionsWithCapacityAvailable = [\<lparr> Name = ''us-east-1'' \<rparr>, \<lparr> Name = ''us-west-2'' \<rparr>] \<rparr>"]
  by (simp add: catalog_def example_cfg_def)

section \<open>No capacity\<close>



section \<open>One launch\<close>

text \<open>
  C1. In every run of the program, over any number of passes and against any
  provider, at most one launch request is answered successfully. When one is, the
  loop has left through its \<^verbatim>\<open>break\<close>: no successful launch comes before it, no
  request of either kind comes after it, and more passes give the same state.
  Launch requests that failed may precede it.
\<close>

theorem at_most_one_successful_launch:
  assumes "main n cfg net w = (c, s)"
  shows "length (filter launched (trace s)) \<le> 1
     \<and> (\<forall>pre e post. trace s = pre @ e # post \<and> launched e \<longrightarrow>
            c = Break \<and> list_all (\<lambda>x. \<not> launched x) pre \<and> list_all (\<lambda>x. \<not> is_call x) post)
     \<and> (c = Break \<longrightarrow> (\<forall>k. main (n + k) cfg net w = (c, s)))"
proof -
  from assms have l: "launchInstanceLoop n cfg net (initial w) = (c, s)"
    by (simp add: main_def)
  from loop_trace [OF l] obtain new where
    n: "trace s = new"
       "c = Continue \<longrightarrow> list_all (\<lambda>x. \<not> launched x) new"
       "c = Break \<longrightarrow>
          (\<exists>pre rq res. new = pre @ [Launch rq (Decoded res), Log (LogLaunchResult res)]
             \<and> list_all (\<lambda>x. \<not> launched x) pre \<and> healthStatus s = health_launched res)"
    by (auto simp: initial_def)
  have stable: "c = Break \<longrightarrow> (\<forall>k. main (n + k) cfg net w = (c, s))"
    using loop_Break_stable [of n cfg net "initial w" s] l by (simp add: main_def)
  show ?thesis
  proof (cases c)
    case Continue
    with n have a: "list_all (\<lambda>x. \<not> launched x) (trace s)" by simp
    then have "filter launched (trace s) = []"
      by (simp add: list_all_iff filter_empty_conv)
    moreover have "\<forall>pre e post. trace s = pre @ e # post \<and> launched e \<longrightarrow> False"
      using a by (auto simp: list_all_iff)
    ultimately show ?thesis using Continue by auto
  next
    case Break
    with n obtain pre rq res where
      p: "trace s = pre @ Launch rq (Decoded res) # [Log (LogLaunchResult res)]"
         "list_all (\<lambda>x. \<not> launched x) pre"
      by auto
    have q: "list_all (\<lambda>x. \<not> launched x) [Log (LogLaunchResult res)]" by simp
    from p(2) have "filter launched pre = []"
      by (simp add: list_all_iff filter_empty_conv)
    with p(1) have one: "length (filter launched (trace s)) \<le> 1" by simp
    have "\<forall>pre' e post. trace s = pre' @ e # post \<and> launched e \<longrightarrow>
            list_all (\<lambda>x. \<not> launched x) pre' \<and> list_all (\<lambda>x. \<not> is_call x) post"
    proof (intro allI impI)
      fix pre' e post
      assume h: "trace s = pre' @ e # post \<and> launched e"
      with p(1) have "pre @ Launch rq (Decoded res) # [Log (LogLaunchResult res)] = pre' @ e # post"
        by simp
      from split_unique [of launched, OF p(2) q this] h
      have "pre' = pre" "post = [Log (LogLaunchResult res)]" by simp_all
      with p(2) show "list_all (\<lambda>x. \<not> launched x) pre' \<and> list_all (\<lambda>x. \<not> is_call x) post"
        by simp
    qed
    with one stable Break show ?thesis by blast
  qed
qed

text \<open>Three launch requests, of which the last and only the last succeeds.\<close>

theorem at_most_one_successful_launch_witness:
  "fst (main 4 example_cfg scripted example_world) = Break
   \<and> length (filter is_launch (trace (snd (main 4 example_cfg scripted example_world)))) = 3
   \<and> length (filter launched (trace (snd (main 4 example_cfg scripted example_world)))) = 1
   \<and> main (4 + 6) example_cfg scripted example_world = main 4 example_cfg scripted example_world"
  using at_most_one_successful_launch [OF main_example_4, THEN conjunct2, THEN conjunct2,
      THEN mp, OF refl, THEN spec, of 6]
  by (simp add: main_example_4)

section \<open>Failures\<close>

text \<open>
  C4. \<^verbatim>\<open>getInstanceTypes\<close> and \<^verbatim>\<open>launchInstance\<close> return an error exactly when
  the request or the decoding of its answer fails. A pass in which the availability
  request fails, and a pass in which the launch request fails, each log the error, sleep \<^verbatim>\<open>errorWait\<close> seconds and end with
  \<^verbatim>\<open>continue\<close>. A pass that ends so is followed by another pass, which begins
  with a new availability request. The loop is left only behind a launch request
  that succeeded.
\<close>

theorem failures_are_retried:
  "snd (fst (getInstanceTypes cfg net s)) =
      failure (fst (serve_instance_types net (fetchRequest cfg) (world s)))
   \<and> snd (fst (launchInstance cfg net r s)) =
      failure (fst (serve_launch net (launchRequest cfg r) (world s)))
   \<and> (serve_instance_types net (fetchRequest cfg) (world s) = (rep, w) \<and> failure rep = Some e \<longrightarrow>
      launchInstanceLoop_body cfg net s =
        (Continue,
         s\<lparr> world := w,
            trace := trace s @
              [Log LogSeparator, Log (LogChecking (instanceTypeName cfg)),
               Fetch (fetchRequest cfg) rep,
               Log (LogFetchError e (errorWait cfg)), Sleep (errorWait cfg * Second)],
            healthStatus := health_error e \<rparr>))
   \<and> (serve_instance_types net (fetchRequest cfg) (world t) = (Decoded it, w1)
        \<and> fst (checkInstanceAvailability cfg it) = r \<and> r \<noteq> []
        \<and> serve_launch net (launchRequest cfg r) w1 = (rep', w') \<and> failure rep' = Some e' \<longrightarrow>
      launchInstanceLoop_body cfg net t =
        (Continue,
         t\<lparr> world := w',
            trace := trace t @
              [Log LogSeparator, Log (LogChecking (instanceTypeName cfg)),
               Fetch (fetchRequest cfg) (Decoded it),
               Launch (launchRequest cfg r) rep',
               Log (LogLaunchError e' (errorWait cfg)), Sleep (errorWait cfg * Second)],
            healthStatus := health_error e' \<rparr>))
   \<and> (launchInstanceLoop_body cfg net s = (Continue, s1) \<longrightarrow>
        launchInstanceLoop (Suc n) cfg net s = launchInstanceLoop n cfg net s1
        \<and> (\<exists>rep rest. trace (snd (launchInstanceLoop_body cfg net s1)) =
              trace s1 @ Log LogSeparator # Log (LogChecking (instanceTypeName cfg))
                # Fetch (fetchRequest cfg) rep # rest))
   \<and> (launchInstanceLoop n cfg net s = (Break, s2) \<longrightarrow>
        (\<exists>pre rq res. trace s2 =
            trace s @ pre @ [Launch rq (Decoded res), Log (LogLaunchResult res)]))"
proof (intro conjI impI)
  show "snd (fst (getInstanceTypes cfg net s)) =
      failure (fst (serve_instance_types net (fetchRequest cfg) (world s)))"
    by (rule getInstanceTypes_err)
next
  show "snd (fst (launchInstance cfg net r s)) =
      failure (fst (serve_launch net (launchRequest cfg r) (world s)))"
    by (rule launchInstance_err)
next
  assume "serve_instance_types net (fetchRequest cfg) (world s) = (rep, w) \<and> failure rep = Some e"
  then show "launchInstanceLoop_body cfg net s =
        (Continue,
         s\<lparr> world := w,
            trace := trace s @
              [Log LogSeparator, Log (LogChecking (instanceTypeName cfg)),
               Fetch (fetchRequest cfg) rep,
               Log (LogFetchError e (errorWait cfg)), Sleep (errorWait cfg * Second)],
            healthStatus := health_error e \<rparr>)"
    by (elim conjE) (rule body_fetch_failed)
next
  assume "serve_instance_types net (fetchRequest cfg) (world t) = (Decoded it, w1)
        \<and> fst (checkInstanceAvailability cfg it) = r \<and> r \<noteq> []
        \<and> serve_launch net (launchRequest cfg r) w1 = (rep', w') \<and> failure rep' = Some e'"
  then show "launchInstanceLoop_body cfg net t =
        (Continue,
         t\<lparr> world := w',
            trace := trace t @
              [Log LogSeparator, Log (LogChecking (instanceTypeName cfg)),
               Fetch (fetchRequest cfg) (Decoded it),
               Launch (launchRequest cfg r) rep',
               Log (LogLaunchError e' (errorWait cfg)), Sleep (errorWait cfg * Second)],
            healthStatus := health_error e' \<rparr>)"
    by (elim conjE) (rule body_launch_failed)
next
  assume "launchInstanceLoop_body cfg net s = (Continue, s1)"
  then show "launchInstanceLoop (Suc n) cfg net s = launchInstanceLoop n cfg net s1" by simp
next
  show "\<exists>rep rest. trace (snd (launchInstanceLoop_body cfg net s1)) =
              trace s1 @ Log LogSeparator # Log (LogChecking (instanceTypeName cfg))
                # Fetch (fetchRequest cfg) rep # rest"
    by (rule body_starts_with_fetch)
next
  assume "launchInstanceLoop n cfg net s = (Break, s2)"
  from loop_trace [OF this]
  show "\<exists>pre rq res. trace s2 =
            trace s @ pre @ [Launch rq (Decoded res), Log (LogLaunchResult res)]"
    by auto
qed

text \<open>
  A failed availability request and a failed launch request, each followed by the
  sleep of 10 seconds; the loop ends at the launch that succeeds.
\<close>

theorem failures_are_retried_witness:
  "failure (fst (serve_instance_types scripted (fetchRequest example_cfg)
                   (world (initial flaky_world)))) = Some (Err ''connection refused'')
   \<and> fst (launchInstanceLoop_body example_cfg scripted (initial flaky_world)) = Continue
   \<and> last (trace (snd (launchInstanceLoop_body example_cfg scripted (initial flaky_world))))
       = Sleep (errorWait example_cfg * Second)
   \<and> fst (launchInstanceLoop_body example_cfg scripted (initial example_world)) = Continue
   \<and> last (trace (snd (launchInstanceLoop_body example_cfg scripted (initial example_world))))
       = Sleep (errorWait example_cfg * Second)
   \<and> fst (launchInstanceLoop 2 example_cfg scripted (initial flaky_world)) = Break
   \<and> list_ex launched
       (trace (snd (launchInstanceLoop 2 example_cfg scripted (initial flaky_world))))"
  using failures_are_retried
    [where net = scripted and cfg = example_cfg and s = "initial flaky_world"
       and rep = "DoFailed (Err ''connection refused'')" and e = "Err ''connection refused''"
       and w = "([Decoded (catalog ''gpu_1x_a6000'' [''us-east-1'', ''us-west-2''])],
                 [Decoded (JObject [(''id'', JString ''abc123'')])])"
       and t = "initial example_world"
       and it = "catalog ''gpu_1x_a6000'' [''us-east-1'', ''us-west-2'']"
       and r = "''us-east-1''"
       and ?rep' = "DoFailed (Err ''connection reset'')" and ?e' = "Err ''connection reset''"
       and n = 1
       and ?s1.0 = "snd (launchInstanceLoop_body example_cfg scripted (initial flaky_world))"
       and ?s2.0 = "snd (launchInstanceLoop 2 example_cfg scripted (initial flaky_world))"]
  by (simp add: loop_defs numeral_eq_Suc fetchRequest_def launchRequest_def Second_def
        health_error_def)

section \<open>The launch request\<close>

text \<open>
  C5, as the code has it. \<^verbatim>\<open>launchInstance\<close> sends exactly one request: a POST
  to the launch endpoint, with the API key as user name and an empty password, the
  JSON content type, and the body \<^verbatim>\<open>{"region_name": r, "instance_type_name": t, "ssh_key_names": [k], "quantity": 1}\<close>,
  where \<open>r\<close>, \<open>t\<close> and \<open>k\<close> are the region passed in, the configured instance
  type and the one configured key as the JSON encoder writes them: every byte that
  is not part of a valid UTF-8 encoding replaced by U+FFFD. When the three are
  valid UTF-8 they stand in the body as they are. When the answer decodes, the
  decoded document is returned as it is, with a nil error; when the request or
  the decoding fails, the result is nil with that error.
\<close>

theorem launch_request_body:
  "\<exists>rq rep.
     trace (snd (launchInstance cfg net regionName s)) = trace s @ [Launch rq rep]
     \<and> Method rq = ''POST''
     \<and> URL rq = ''https://cloud.lambdalabs.com/api/v1/instance-operations/launch''
     \<and> BasicAuth rq = Some (apiKey cfg, [])
     \<and> Header rq = [(''Content-Type'', ''application/json'')]
     \<and> Body rq = Some (JObject
           [ (''region_name'', JString (coerce_utf8 regionName)),
             (''instance_type_name'', JString (coerce_utf8 (instanceTypeName cfg))),
             (''ssh_key_names'', JArray [JString (coerce_utf8 (sshKeyName cfg))]),
             (''quantity'', JNumber 1) ])
     \<and> (ValidString regionName \<and> ValidString (instanceTypeName cfg)
          \<and> ValidString (sshKeyName cfg) \<longrightarrow>
            Body rq = Some (JObject
              [ (''region_name'', JString regionName),
                (''instance_type_name'', JString (instanceTypeName cfg)),
                (''ssh_key_names'', JArray [JString (sshKeyName cfg)]),
                (''quantity'', JNumber 1) ]))
     \<and> serve_launch net rq (world s) = (rep, world (snd (launchInstance cfg net regionName s)))
     \<and> (\<forall>res. rep = Decoded res \<longrightarrow>
            fst (launchInstance cfg net regionName s) = (res, None))
     \<and> (\<forall>e. failure rep = Some e \<longrightarrow>
            fst (launchInstance cfg net regionName s) = (JNull, Some e))"
proof -
  obtain rep w where l: "serve_launch net (launchRequest cfg regionName) (world s) = (rep, w)"
    by (cases "serve_launch net (launchRequest cfg regionName) (world s)")
  have r: "\<forall>e. failure rep = Some e \<longrightarrow> returned JNull rep = (JNull, Some e)"
    by (cases rep) simp_all
  from launchInstance_eq [OF l] l r show ?thesis
    by (intro exI [of _ "launchRequest cfg regionName"] exI [of _ rep])
       (simp add: launchRequest_def coerce_utf8_valid)
qed

text \<open>The request for region \<^verbatim>\<open>us-east-1\<close> and the answer \<^verbatim>\<open>{"id": "abc123"}\<close>.\<close>

theorem launch_request_body_witness:
  "(ValidString ''us-east-1'' \<and> ValidString (instanceTypeName example_cfg)
      \<and> ValidString (sshKeyName example_cfg))
   \<and> trace (snd (launchInstance example_cfg scripted ''us-east-1''
                 (initial ([], [Decoded (JObject [(''id'', JString ''abc123'')])])))) =
     [Launch
        \<lparr> Method = ''POST'',
          URL = ''https://cloud.lambdalabs.com/api/v1/instance-operations/launch'',
          BasicAuth = Some (''secret'', []),
          Header = [(''Content-Type'', ''application/json'')],
          Body = Some (JObject
            [ (''region_name'', JString ''us-east-1''),
              (''instance_type_name'', JString ''gpu_1x_a6000''),
              (''ssh_key_names'', JArray [JString ''laptop'']),
              (''quantity'', JNumber 1) ]) \<rparr>
        (Decoded (JObject [(''id'', JString ''abc123'')]))]
   \<and> fst (launchInstance example_cfg scripted ''us-east-1''
            (initial ([], [Decoded (JObject [(''id'', JString ''abc123'')])]))) =
       (JObject [(''id'', JString ''abc123'')], None)"
  using launch_request_body [of example_cfg scripted "''us-east-1''"
      "initial ([], [Decoded (JObject [(''id'', JString ''abc123'')])])"]
  by (simp add: loop_defs ascii_ValidString)

text \<open>
  C5 as stated has the configured SSH key in the body, whatever it is. With
  \<^verbatim>\<open>SSH_KEY_NAME\<close> set to the two bytes \<^verbatim>\<open>k\<close>, \<^verbatim>\<open>0xFF\<close>, \<^verbatim>\<open>init\<close> keeps
  the two bytes and the request carries the four bytes of \<^verbatim>\<open>k\<close>, U+FFFD.
\<close>

theorem launch_request_body_counterexample:
  "sshKeyName (init byte_env) = [CHR ''k'', CHR 0xFF]
   \<and> trace (snd (launchInstance (init byte_env) scripted ''us-east-1'' (initial ([], [])))) =
     [Launch
        \<lparr> Method = ''POST'',
          URL = ''https://cloud.lambdalabs.com/api/v1/instance-operations/launch'',
          BasicAuth = Some (''secret'', []),
          Header = [(''Content-Type'', ''application/json'')],
          Body = Some (JObject
            [ (''region_name'', JString ''us-east-1''),
              (''instance_type_name'', JString ''gpu_1x_a6000''),
              (''ssh_key_names'', JArray [JString [CHR ''k'', CHR 0xEF, CHR 0xBF, CHR 0xBD]]),
              (''quantity'', JNumber 1) ]) \<rparr>
        (DoFailed (Err ''unreachable''))]
   \<and> [CHR ''k'', CHR 0xEF, CHR 0xBF, CHR 0xBD] \<noteq> sshKeyName (init byte_env)"
  by (simp add: init_def byte_env_def Getenv_def atoi_or_def Atoi_def ParseInt_def
        launchInstance_def Marshal_def NewRequest_def SetBasicAuth_def Header_Set_def
        emit_def baseUrl_def scripted_def initial_def between_def
        rune_size.simps coerce_utf8.simps)

section \<open>The availability check and its error\<close>

text \<open>
  C8. \<^verbatim>\<open>checkInstanceAvailability\<close> returns a nil error for every catalog. So
  the branch of the loop that handles its error is never taken: no run logs a
  line of that branch. A pass whose availability request succeeded either sends a
  launch request or is the pass that logs that no region was found, sleeps
  \<^verbatim>\<open>checkInterval\<close> seconds and continues.
\<close>

theorem availability_check_never_fails:
  "snd (checkInstanceAvailability cfg it) = None
   \<and> list_all (\<lambda>x. \<not> is_check_error x) (trace (snd (main n cfg net w)))
   \<and> (serve_instance_types net (fetchRequest cfg) (world s) = (Decoded it, w') \<longrightarrow>
        list_ex is_launch
          (drop (length (trace s)) (trace (snd (launchInstanceLoop_body cfg net s))))
        \<or> launchInstanceLoop_body cfg net s =
            (Continue,
             s\<lparr> world := w',
                trace := trace s @
                  [Log LogSeparator, Log (LogChecking (instanceTypeName cfg)),
                   Fetch (fetchRequest cfg) (Decoded it),
                   Log (LogNoRegions (instanceTypeName cfg) (checkInterval cfg)),
                   Sleep (checkInterval cfg * Second)] \<rparr>))"
proof (intro conjI impI)
  show "snd (checkInstanceAvailability cfg it) = None"
    by (rule checkInstanceAvailability_err)
next
  have "list_all (\<lambda>x. \<not> is_check_error x) (trace (initial w))"
    by (simp add: initial_def)
  then have "list_all (\<lambda>x. \<not> is_check_error x)
               (trace (snd (launchInstanceLoop n cfg net (initial w))))"
    by (rule loop_invariant [where P = "\<lambda>s. list_all (\<lambda>x. \<not> is_check_error x) (trace s)"])
       (rule body_no_check_error)
  then show "list_all (\<lambda>x. \<not> is_check_error x) (trace (snd (main n cfg net w)))"
    by (simp add: main_def)
next
  assume f: "serve_instance_types net (fetchRequest cfg) (world s) = (Decoded it, w')"
  show "list_ex is_launch
          (drop (length (trace s)) (trace (snd (launchInstanceLoop_body cfg net s))))
        \<or> launchInstanceLoop_body cfg net s =
            (Continue,
             s\<lparr> world := w',
                trace := trace s @
                  [Log LogSeparator, Log (LogChecking (instanceTypeName cfg)),
                   Fetch (fetchRequest cfg) (Decoded it),
                   Log (LogNoRegions (instanceTypeName cfg) (checkInterval cfg)),
                   Sleep (checkInterval cfg * Second)] \<rparr>)"
  proof (cases "fst (checkInstanceAvailability cfg it) = []")
    case True
    from body_no_capacity [OF f True] show ?thesis by simp
  next
    case False
    obtain rep w2 where
      l: "serve_launch net (launchRequest cfg (fst (checkInstanceAvailability cfg it))) w'
            = (rep, w2)"
      by (cases "serve_launch net (launchRequest cfg (fst (checkInstanceAvailability cfg it))) w'")
    from failure_cases [of rep] show ?thesis
    proof
      assume "\<exists>e. failure rep = Some e"
      then obtain e where "failure rep = Some e" ..
      from body_launch_failed [OF f refl False l this] show ?thesis by simp
    next
      assume "\<exists>v. rep = Decoded v"
      then obtain v where "rep = Decoded v" ..
      with l have "serve_launch net (launchRequest cfg (fst (checkInstanceAvailability cfg it))) w'
            = (Decoded v, w2)" by simp
      from body_launched [OF f refl False this] show ?thesis by simp
    qed
  qed
qed

text \<open>A pass that goes on to launch, and a run of four passes.\<close>

theorem availability_check_never_fails_witness:
  "fst (serve_instance_types scripted (fetchRequest example_cfg) (world (initial example_world)))
     = Decoded (catalog ''gpu_1x_a6000'' [''us-east-1'', ''us-west-2''])
   \<and> list_ex is_launch
     (trace (snd (launchInstanceLoop_body example_cfg scripted (initial example_world))))
   \<and> \<not> list_ex is_check_error (trace (snd (main 4 example_cfg scripted example_world)))"
  using availability_check_never_fails
    [where cfg = example_cfg and net = scripted and s = "initial example_world"
       and it = "catalog ''gpu_1x_a6000'' [''us-east-1'', ''us-west-2'']"
       and ?w' = "([DoFailed (Err ''connection refused''),
                    Decoded (catalog ''gpu_1x_a6000'' [''us-west-2'']),
                    Decoded (catalog ''gpu_1x_a6000'' [''us-east-1''])],
                   [DoFailed (Err ''connection reset''),
                    DecodeFailed (Err ''unexpected EOF''),
                    Decoded (JObject [(''id'', JString ''abc123'')])])"
       and n = 4 and w = example_world]
  by (simp add: main_example_4)
     (simp add: loop_defs fetchRequest_def launchRequest_def)

section \<open>The empty region name\<close>

text \<open>
  C9. The empty string stands for no region. When the first region of the list of
  the configured type has the empty name, the pass is the pass of a catalog
  without capacity: the check returns the empty name, no launch request is sent,
  and the loop sleeps \<^verbatim>\<open>checkInterval\<close> seconds and continues, also when
  further regions with proper names follow in the list.
\<close>

theorem empty_region_name_is_no_capacity:
  assumes "serve_instance_types net (fetchRequest cfg) (world s) = (Decoded it, w)"
    and "Data it (instanceTypeName cfg) = Some d"
    and "RegionsWithCapacityAvailable d = r # rs"
    and "Name r = []"
  shows "checkInstanceAvailability cfg it = ([], None)
     \<and> launchInstanceLoop_body cfg net s =
         (Continue,
          s\<lparr> world := w,
             trace := trace s @
               [Log LogSeparator, Log (LogChecking (instanceTypeName cfg)),
                Fetch (fetchRequest cfg) (Decoded it),
                Log (LogNoRegions (instanceTypeName cfg) (checkInterval cfg)),
                Sleep (checkInterval cfg * Second)] \<rparr>)"
proof -
  have c: "checkInstanceAvailability cfg it = ([], None)"
    using assms(2,3,4) by (simp add: checkInstanceAvailability_def)
  then have "fst (checkInstanceAvailability cfg it) = []" by simp
  from body_no_capacity [OF assms(1) this] c show ?thesis by simp
qed

text \<open>A list of two regions, the first without a name; the second is never tried.\<close>

theorem empty_region_name_is_no_capacity_witness:
  "RegionsWithCapacityAvailable
       (the (Data (catalog ''gpu_1x_a6000'' ['''', ''us-west-2'']) (instanceTypeName example_cfg)))
     = [\<lparr> Name = [] \<rparr>, \<lparr> Name = ''us-west-2'' \<rparr>]
   \<and> launchInstanceLoop_body example_cfg scripted
       (initial ([Decoded (catalog ''gpu_1x_a6000'' ['''', ''us-west-2''])],
                 [Decoded (JObject [(''id'', JString ''abc123'')])])) =
     (Continue,
      \<lparr> world = ([], [Decoded (JObject [(''id'', JString ''abc123'')])]),
        trace =
          [Log LogSeparator, Log (LogChecking ''gpu_1x_a6000''),
           Fetch (fetchRequest example_cfg)
             (Decoded (catalog ''gpu_1x_a6000'' ['''', ''us-west-2''])),
           Log (LogNoRegions ''gpu_1x_a6000'' 30),
           Sleep 30000000000],
        healthStatus = \<lparr> Status = ''running'', Result = JNull, Error = [] \<rparr> \<rparr>)"
  using empty_region_name_is_no_capacity
    [of scripted example_cfg
        "initial ([Decoded (catalog ''gpu_1x_a6000'' ['''', ''us-west-2''])],
                  [Decoded (JObject [(''id'', JString ''abc123'')])])"
        "catalog ''gpu_1x_a6000'' ['''', ''us-west-2'']"
        "([], [Decoded (JObject [(''id'', JString ''abc123'')])])"
        "\<lparr> RegionsWithCapacityAvailable = [\<lparr> Name = [] \<rparr>, \<lparr> Name = ''us-west-2'' \<rparr>] \<rparr>"
        "\<lparr> Name = [] \<rparr>" "[\<lparr> Name = ''us-west-2'' \<rparr>]"]
  by (simp add: scripted_def initial_def catalog_def example_cfg_def Second_def)

section \<open>The health status\<close>

text \<open>
  C6. In the copy that serves the health endpoint, a pass whose availability
  request fails, and a pass whose launch request fails, leave \<^verbatim>\<open>healthStatus\<close>
  at status \<^verbatim>\<open>error\<close> with the message of the error and no result. A pass whose
  launch succeeds leaves it at status \<^verbatim>\<open>instance launched\<close> with the decoded
  answer as result and no error message, and ends the loop; whenever the loop has
  ended, the status is that of the launch that succeeded, and it stays so.
\<close>

theorem health_status_follows_the_loop:
  "(serve_instance_types net (fetchRequest cfg) (world s) = (rep, w) \<and> failure rep = Some e \<longrightarrow>
      healthStatus (snd (launchInstanceLoop_body cfg net s)) =
        \<lparr> Status = ''error'', Result = JNull, Error = Error_of e \<rparr>)
   \<and> (serve_instance_types net (fetchRequest cfg) (world t) = (Decoded it, w1)
        \<and> fst (checkInstanceAvailability cfg it) = r \<and> r \<noteq> []
        \<and> serve_launch net (launchRequest cfg r) w1 = (rep', w') \<and> failure rep' = Some e' \<longrightarrow>
      healthStatus (snd (launchInstanceLoop_body cfg net t)) =
        \<lparr> Status = ''error'', Result = JNull, Error = Error_of e' \<rparr>)
   \<and> (serve_instance_types net (fetchRequest cfg) (world u) = (Decoded it', w2)
        \<and> fst (checkInstanceAvailability cfg it') = r' \<and> r' \<noteq> []
        \<and> serve_launch net (launchRequest cfg r') w2 = (Decoded res, w3) \<longrightarrow>
      fst (launchInstanceLoop_body cfg net u) = Break
      \<and> healthStatus (snd (launchInstanceLoop_body cfg net u)) =
          \<lparr> Status = ''instance launched'', Result = res, Error = [] \<rparr>)
   \<and> (launchInstanceLoop n cfg net s = (Break, s2) \<longrightarrow>
        (\<exists>pre rq res2.
            trace s2 = trace s @ pre @ [Launch rq (Decoded res2), Log (LogLaunchResult res2)]
            \<and> healthStatus s2 = \<lparr> Status = ''instance launched'', Result = res2, Error = [] \<rparr>)
        \<and> (\<forall>k. launchInstanceLoop (n + k) cfg net s = (Break, s2)))"
proof (intro conjI impI)
  assume "serve_instance_types net (fetchRequest cfg) (world s) = (rep, w) \<and> failure rep = Some e"
  then have "serve_instance_types net (fetchRequest cfg) (world s) = (rep, w)"
    "failure rep = Some e" by simp_all
  from body_fetch_failed [OF this]
  show "healthStatus (snd (launchInstanceLoop_body cfg net s)) =
        \<lparr> Status = ''error'', Result = JNull, Error = Error_of e \<rparr>"
    by (simp add: health_error_def)
next
  assume "serve_instance_types net (fetchRequest cfg) (world t) = (Decoded it, w1)
        \<and> fst (checkInstanceAvailability cfg it) = r \<and> r \<noteq> []
        \<and> serve_launch net (launchRequest cfg r) w1 = (rep', w') \<and> failure rep' = Some e'"
  then have "serve_instance_types net (fetchRequest cfg) (world t) = (Decoded it, w1)"
    "fst (checkInstanceAvailability cfg it) = r" "r \<noteq> []"
    "serve_launch net (launchRequest cfg r) w1 = (rep', w')" "failure rep' = Some e'"
    by simp_all
  from body_launch_failed [OF this]
  show "healthStatus (snd (launchInstanceLoop_body cfg net t)) =
        \<lparr> Status = ''error'', Result = JNull, Error = Error_of e' \<rparr>"
    by (simp add: health_error_def)
next
  assume a: "serve_instance_types net (fetchRequest cfg) (world u) = (Decoded it', w2)
        \<and> fst (checkInstanceAvailability cfg it') = r' \<and> r' \<noteq> []
        \<and> serve_launch net (launchRequest cfg r') w2 = (Decoded res, w3)"
  then have h: "serve_instance_types net (fetchRequest cfg) (world u) = (Decoded it', w2)"
    "fst (checkInstanceAvailability cfg it') = r'" "r' \<noteq> []"
    "serve_launch net (launchRequest cfg r') w2 = (Decoded res, w3)"
    by simp_all
  from body_launched [OF h]
  show "fst (launchInstanceLoop_body cfg net u) = Break" by simp
  from body_launched [OF h]
  show "healthStatus (snd (launchInstanceLoop_body cfg net u)) =
          \<lparr> Status = ''instance launched'', Result = res, Error = [] \<rparr>"
    by (simp add: health_launched_def)
next
  assume l: "launchInstanceLoop n cfg net s = (Break, s2)"
  from loop_trace [OF l]
  show "\<exists>pre rq res2.
            trace s2 = trace s @ pre @ [Launch rq (Decoded res2), Log (LogLaunchResult res2)]
            \<and> healthStatus s2 = \<lparr> Status = ''instance launched'', Result = res2, Error = [] \<rparr>"
    by (auto simp: health_launched_def)
  from loop_Break_stable [OF l]
  show "\<forall>k. launchInstanceLoop (n + k) cfg net s = (Break, s2)" by simp
qed

text \<open>
  The two scenarios of the specification, as the health endpoint would show them:
  a connection error, and the answer \<^verbatim>\<open>{"id": "abc123"}\<close> of a launch.
\<close>

theorem health_status_follows_the_loop_witness:
  "failure (fst (serve_instance_types scripted (fetchRequest example_cfg)
                   (world (initial flaky_world)))) = Some (Err ''connection refused'')
   \<and> healthHandler (healthStatus (snd (launchInstanceLoop_body example_cfg scripted
                                         (initial flaky_world)))) =
       JObject [(''status'', JString ''error''), (''error'', JString ''connection refused'')]
   \<and> healthHandler (healthStatus (snd (launchInstanceLoop_body example_cfg scripted
                                         (initial example_world)))) =
       JObject [(''status'', JString ''error''), (''error'', JString ''connection reset'')]
   \<and> fst (launchInstanceLoop 2 example_cfg scripted (initial flaky_world)) = Break
   \<and> healthHandler (healthStatus (snd (launchInstanceLoop 2 example_cfg scripted
                                         (initial flaky_world)))) =
       JObject [(''status'', JString ''instance launched''),
                (''result'', JObject [(''id'', JString ''abc123'')])]
   \<and> launchInstanceLoop (2 + 5) example_cfg scripted (initial flaky_world) =
       launchInstanceLoop 2 example_cfg scripted (initial flaky_world)"
proof -
  note t = health_status_follows_the_loop
    [where net = scripted and cfg = example_cfg and s = "initial flaky_world"
       and rep = "DoFailed (Err ''connection refused'')" and e = "Err ''connection refused''"
       and w = "([Decoded (catalog ''gpu_1x_a6000'' [''us-east-1'', ''us-west-2''])],
                 [Decoded (JObject [(''id'', JString ''abc123'')])])"
       and t = "initial example_world"
       and it = "catalog ''gpu_1x_a6000'' [''us-east-1'', ''us-west-2'']"
       and r = "''us-east-1''"
       and ?rep' = "DoFailed (Err ''connection reset'')" and ?e' = "Err ''connection reset''"
       and u = "snd (launchInstanceLoop_body example_cfg scripted (initial flaky_world))"
       and ?it' = "catalog ''gpu_1x_a6000'' [''us-east-1'', ''us-west-2'']"
       and ?r' = "''us-east-1''" and res = "JObject [(''id'', JString ''abc123'')]"
       and ?w3.0 = "([], [])"
       and ?w1.0 = "([DoFailed (Err ''connection refused''),
                     Decoded (catalog ''gpu_1x_a6000'' [''us-west-2'']),
                     Decoded (catalog ''gpu_1x_a6000'' [''us-east-1''])],
                    [DoFailed (Err ''connection reset''),
                     DecodeFailed (Err ''unexpected EOF''),
                     Decoded (JObject [(''id'', JString ''abc123'')])])"
       and ?w' = "([DoFailed (Err ''connection refused''),
                    Decoded (catalog ''gpu_1x_a6000'' [''us-west-2'']),
                    Decoded (catalog ''gpu_1x_a6000'' [''us-east-1''])],
                   [DecodeFailed (Err ''unexpected EOF''),
                    Decoded (JObject [(''id'', JString ''abc123'')])])"
       and ?w2.0 = "([], [Decoded (JObject [(''id'', JString ''abc123'')])])"
       and n = 2
       and ?s2.0 = "snd (launchInstanceLoop 2 example_cfg scripted (initial flaky_world))"]
  have b: "fst (launchInstanceLoop 2 example_cfg scripted (initial flaky_world)) = Break"
    by (simp add: loop_defs numeral_eq_Suc)
  then have eq: "launchInstanceLoop 2 example_cfg scripted (initial flaky_world) =
      (Break, snd (launchInstanceLoop 2 example_cfg scripted (initial flaky_world)))"
    by (simp add: prod_eq_iff)
  from t [THEN conjunct2, THEN conjunct2, THEN conjunct2, THEN mp, OF eq, THEN conjunct2,
          THEN spec, of 5] eq
  have "launchInstanceLoop (2 + 5) example_cfg scripted (initial flaky_world) =
       launchInstanceLoop 2 example_cfg scripted (initial flaky_world)"
    by (simp only:)
  moreover have "failure (fst (serve_instance_types scripted (fetchRequest example_cfg)
                   (world (initial flaky_world)))) = Some (Err ''connection refused'')"
    by (simp add: loop_defs)
  moreover have "healthHandler (healthStatus (snd (launchInstanceLoop_body example_cfg scripted
                                         (initial flaky_world)))) =
       JObject [(''status'', JString ''error''), (''error'', JString ''connection refused'')]"
    by (simp add: loop_defs healthHandler_def)
  moreover have "healthHandler (healthStatus (snd (launchInstanceLoop_body example_cfg scripted
                                         (initial example_world)))) =
       JObject [(''status'', JString ''error''), (''error'', JString ''connection reset'')]"
    by (simp add: loop_defs healthHandler_def)
  moreover have "healthHandler (healthStatus (snd (launchInstanceLoop 2 example_cfg scripted
                                         (initial flaky_world)))) =
       JObject [(''status'', JString ''instance launched''),
                (''result'', JObject [(''id'', JString ''abc123'')])]"
    by (simp add: loop_defs healthHandler_def numeral_eq_Suc)
  ultimately show ?thesis using b by (simp only: simp_thms)
qed

section \<open>Defaults\<close>

text \<open>
  C7, as the code has it. With the variable unset, the poll interval is 30 seconds
  in both copies of the program and the error-retry interval is 10 seconds in
  both; the port is 5000 in the copy that serves the health endpoint. The two
  copies give the poll interval and the error-retry interval the same value for
  every environment.
\<close>

theorem defaults_of_both_copies:
  "(env ''CHECK_INTERVAL_SECONDS'' = None \<longrightarrow>
      checkInterval (init env) = 30 \<and> checkInterval (init_plain env) = 30)
   \<and> (env ''ERROR_WAIT_SECONDS'' = None \<longrightarrow>
      errorWait (init env) = 10 \<and> errorWait (init_plain env) = 10)
   \<and> (env ''PORT'' = None \<longrightarrow> port (init env) = 5000)
   \<and> checkInterval (init env) = checkInterval (init_plain env)
   \<and> errorWait (init env) = errorWait (init_plain env)"
  by (simp add: init_def init_plain_def atoi_or_unset)

theorem defaults_of_both_copies_witness:
  "checkInterval (init Map.empty) = 30 \<and> checkInterval (init_plain Map.empty) = 30
   \<and> errorWait (init Map.empty) = 10 \<and> errorWait (init_plain Map.empty) = 10
   \<and> port (init Map.empty) = 5000"
  using defaults_of_both_copies [of Map.empty] by simp

text \<open>
  C7 as stated has one copy default the poll interval differently from the other.
  In the empty environment both copies set it to 30.
\<close>

theorem poll_interval_defaults_differ_counterexample:
  "checkInterval (init Map.empty) = 30 \<and> checkInterval (init_plain Map.empty) = 30
   \<and> \<not> (checkInterval (init Map.empty) \<noteq> checkInterval (init_plain Map.empty))"
  by (simp add: init_def init_plain_def atoi_or_unset)

section \<open>Integer settings\<close>

text \<open>
  C10, as the code has it. Each of the three integer settings is the value that
  \<^verbatim>\<open>Atoi\<close> returns for the variable, the error dropped, unless that value is 0,
  and then it is the default (30, 10, 5000). So the default is taken when the
  variable is unset, when its value is not a numeral and \<^verbatim>\<open>Atoi\<close> rejects it
  with a syntax error (as it does for every such value of at most 19 bytes, and
  for a longer one unless its leading digits overflow first), and when it is a
  numeral for 0. A numeral with a minus sign for a number \<open>n > 0\<close> sets the value
  \<open>- n\<close> when \<open>n \<le> 2\<^sup>6\<^sup>3\<close>, and the smallest \<^verbatim>\<open>int\<close>, \<open>- 2\<^sup>6\<^sup>3\<close>, when
  \<open>n\<close> is larger.
\<close>

theorem integer_settings:
  assumes "(k, get, d) \<in> set settings"
  shows "get (init env) =
           (if fst (Atoi (Getenv env k)) = 0 then d else fst (Atoi (Getenv env k)))
     \<and> (env k = None \<longrightarrow> get (init env) = d)
     \<and> (env k = Some v \<and> \<not> is_numeral v
          \<and> (length v \<le> 19 \<or> decimal (takeWhile is_digit (strip_sign v)) < 2 ^ 64) \<longrightarrow>
            Atoi v = (0, Some ErrSyntax) \<and> get (init env) = d)
     \<and> (env k = Some v \<and> is_numeral v \<and> decimal (strip_sign v) = 0 \<longrightarrow>
            get (init env) = d)
     \<and> (env k = Some v \<and> is_numeral v \<and> has_minus v \<and> 0 < decimal (strip_sign v) \<longrightarrow>
            sint (get (init env)) = - int (min (decimal (strip_sign v)) (2 ^ 63)))"
proof (intro conjI impI)
  note g = settings_atoi_or [OF assms, of env]
  show "get (init env) =
           (if fst (Atoi (Getenv env k)) = 0 then d else fst (Atoi (Getenv env k)))"
    by (simp add: g atoi_or_def Let_def)
  show "get (init env) = d" if "env k = None"
    using that by (simp add: g atoi_or_unset)
  {
    assume a: "env k = Some v \<and> \<not> is_numeral v
          \<and> (length v \<le> 19 \<or> decimal (takeWhile is_digit (strip_sign v)) < 2 ^ 64)"
    then have nn: "\<not> is_numeral v" by simp
    from a have "length v \<le> 19 \<or> decimal (takeWhile is_digit (strip_sign v)) < 2 ^ 64"
      by simp
    then show s: "Atoi v = (0, Some ErrSyntax)"
      using Atoi_short_syntax [OF nn] Atoi_syntax [OF nn] by blast
    from a s show "get (init env) = d"
      by (simp add: g atoi_or_def Getenv_set)
  }
  {
    assume a: "env k = Some v \<and> is_numeral v \<and> decimal (strip_sign v) = 0"
    then have "Atoi v = (0, None)"
      using Atoi_numeral [of v] by simp
    with a show "get (init env) = d"
      by (simp add: g atoi_or_def Getenv_set)
  }
  {
    assume a: "env k = Some v \<and> is_numeral v \<and> has_minus v \<and> 0 < decimal (strip_sign v)"
    let ?n = "decimal (strip_sign v)"
    show "sint (get (init env)) = - int (min ?n (2 ^ 63))"
    proof (cases "?n \<le> 2 ^ 63")
      case True
      with a have at: "Atoi v = (- of_nat ?n, None)"
        using Atoi_numeral [of v] by simp
      have nz: "- (of_nat ?n :: 64 word) \<noteq> 0"
      proof
        assume "- (of_nat ?n :: 64 word) = 0"
        then have "sint (- (of_nat ?n :: 64 word)) = 0" by simp
        with sint_neg_of_nat [OF True] a show False by simp
      qed
      have "get (init env) = - of_nat ?n"
        using a at nz by (simp add: g atoi_or_def Getenv_set)
      with sint_neg_of_nat [OF True] True show ?thesis by (simp add: min_def)
    next
      case False
      with a have at: "Atoi v = (- 9223372036854775808, Some ErrRange)"
        using Atoi_numeral [of v] by simp
      have "get (init env) = - 9223372036854775808"
        using a at by (simp add: g atoi_or_def Getenv_set)
      with False show ?thesis by (simp add: min_def)
    qed
  }
qed

text \<open>An unset variable, a word, a numeral for 0 with a sign, and \<^verbatim>\<open>-5\<close>.\<close>

theorem integer_settings_witness:
  "checkInterval (init Map.empty) = 30
   \<and> errorWait (init [''ERROR_WAIT_SECONDS'' \<mapsto> ''ten'']) = 10
   \<and> port (init [''PORT'' \<mapsto> ''+000'']) = 5000
   \<and> sint (checkInterval (init [''CHECK_INTERVAL_SECONDS'' \<mapsto> ''-5''])) = - 5"
proof -
  have m1: "(''CHECK_INTERVAL_SECONDS'', checkInterval, 30) \<in> set settings"
    and m2: "(''ERROR_WAIT_SECONDS'', errorWait, 10) \<in> set settings"
    and m3: "(''PORT'', port, 5000) \<in> set settings"
    by (simp_all add: settings_def)
  from integer_settings [OF m1, of Map.empty, THEN conjunct2, THEN conjunct1]
  have 1: "checkInterval (init Map.empty) = 30" by simp
  from integer_settings [OF m2, of "[''ERROR_WAIT_SECONDS'' \<mapsto> ''ten'']" "''ten''",
         THEN conjunct2, THEN conjunct2, THEN conjunct1]
  have 2: "errorWait (init [''ERROR_WAIT_SECONDS'' \<mapsto> ''ten'']) = 10"
    by (simp add: is_numeral_def strip_sign_def is_digit_def)
  from integer_settings [OF m3, of "[''PORT'' \<mapsto> ''+000'']" "''+000''",
         THEN conjunct2, THEN conjunct2, THEN conjunct2, THEN conjunct1]
  have 3: "port (init [''PORT'' \<mapsto> ''+000'']) = 5000"
    by (simp add: is_numeral_def strip_sign_def is_digit_def decimal_def)
  from integer_settings [OF m1, of "[''CHECK_INTERVAL_SECONDS'' \<mapsto> ''-5'']" "''-5''",
         THEN conjunct2, THEN conjunct2, THEN conjunct2, THEN conjunct2]
  have 4: "sint (checkInterval (init [''CHECK_INTERVAL_SECONDS'' \<mapsto> ''-5''])) = - 5"
    by (simp add: is_numeral_def strip_sign_def is_digit_def decimal_def has_minus_def)
  from 1 2 3 4 show ?thesis by (simp only: simp_thms)
qed

text \<open>
  C10 as stated has every negative value kept as it is. The value
  \<^verbatim>\<open>-9223372036854775809\<close> is one below the range of \<^verbatim>\<open>int\<close>: \<^verbatim>\<open>Atoi\<close>
  returns the smallest \<^verbatim>\<open>int\<close> with a range error, the error is dropped, and the
  poll interval is \<^verbatim>\<open>-9223372036854775808\<close>.
\<close>

theorem negative_value_kept_counterexample:
  "sint (checkInterval (init [''CHECK_INTERVAL_SECONDS'' \<mapsto> ''-9223372036854775809'']))
     = - 9223372036854775808"
  by (simp add: init_def atoi_or_def Getenv_def Atoi_def ParseInt_def ParseUint_def)

end
